theory Spec2Isabelle
  imports Main
begin

section \<open>JavaScript values\<close>

text \<open>
  The library binds a JavaScript object or array to a JSON file. The values it can be
  handed are modelled by one datatype. Numbers are integers (floating point is outside the
  model), strings are lists of characters, \<open>Fun\<close> stands for any function value. An
  array carries its elements and, as JavaScript arrays do, any further named properties;
  an object is the list of its own enumerable properties in insertion order.
  \<open>Frozen v\<close> is the array or object \<open>v\<close> after \<^verbatim>\<open>Object.freeze\<close>: the same data,
  but every property write on it is rejected.
\<close>

datatype jsval =
    Undefined
  | Null
  | Bool bool
  | Num int
  | Str string
  | Fun
  | Arr "jsval list" "(string \<times> jsval) list"
  | Obj "(string \<times> jsval) list"
  | Frozen jsval

text \<open>The \<^verbatim>\<open>typeof\<close> operator; \<^verbatim>\<open>typeof null\<close> is \<^verbatim>\<open>'object'\<close>.\<close>

fun typeof :: "jsval \<Rightarrow> string" where
  "typeof Undefined = ''undefined''"
| "typeof Null = ''object''"
| "typeof (Bool b) = ''boolean''"
| "typeof (Num n) = ''number''"
| "typeof (Str s) = ''string''"
| "typeof Fun = ''function''"
| "typeof (Arr xs ps) = ''object''"
| "typeof (Obj ps) = ''object''"
| "typeof (Frozen v) = typeof v"

text \<open>\<^verbatim>\<open>Array.isArray\<close>.\<close>

fun isArray :: "jsval \<Rightarrow> bool" where
  "isArray (Arr xs ps) = True"
| "isArray (Frozen v) = isArray v"
| "isArray v = False"

text \<open>
  What the \<^verbatim>\<open>Proxy\<close> constructor accepts as a target: an object or an array, not
  \<^verbatim>\<open>null\<close> and not a primitive.
\<close>

fun isObject :: "jsval \<Rightarrow> bool" where
  "isObject (Arr xs ps) = True"
| "isObject (Obj ps) = True"
| "isObject (Frozen v) = isObject v"
| "isObject v = False"

text \<open>
  The property names every plain object inherits from \<^verbatim>\<open>Object.prototype\<close>. The
  \<^verbatim>\<open>in\<close> operator sees them on an object literal \<^verbatim>\<open>{}\<close> as well as the own
  properties.
\<close>

definition objectPrototypeNames :: "string list" where
  "objectPrototypeNames =
     [''constructor'', ''__defineGetter__'', ''__defineSetter__'', ''hasOwnProperty'',
      ''__lookupGetter__'', ''__lookupSetter__'', ''isPrototypeOf'',
      ''propertyIsEnumerable'', ''toString'', ''valueOf'', ''__proto__'',
      ''toLocaleString'']"

text \<open>Assignment to an own property: an existing one keeps its place, a new one goes last.\<close>

fun assign :: "string \<Rightarrow> 'a \<Rightarrow> (string \<times> 'a) list \<Rightarrow> (string \<times> 'a) list" where
  "assign k v [] = [(k, v)]"
| "assign k v ((k', v') # ps) = (if k = k' then (k, v) # ps else (k', v') # assign k v ps)"

section \<open>Errors\<close>

text \<open>
  Every \<^verbatim>\<open>throw\<close> of the program and of the platform is a value. The four errors the
  library raises itself carry what its messages interpolate. \<open>SystemError c\<close> is a
  Node.js file-system error whose \<^verbatim>\<open>code\<close> property is \<open>c\<close>; the others have no
  \<^verbatim>\<open>code\<close>.
\<close>

datatype error =
    TypeKindError string
  | DuplicateKeyError string
  | InvalidKeyError string
  | ShapeMismatchError string string
  | SystemError string
  | SyntaxError
  | TypeError
  | RangeError

fun code :: "error \<Rightarrow> string option" where
  "code (SystemError c) = Some c"
| "code e = None"

section \<open>JSON text\<close>

text \<open>
  \<^verbatim>\<open>JSON.stringify\<close> and \<^verbatim>\<open>JSON.parse\<close> belong to the platform. They are modelled on
  the values above: integers in decimal, strings with the two-character escapes and
  \<^verbatim>\<open>\u00XX\<close> for the other control characters, arrays and objects without white space.
\<close>

fun index_of :: "'a \<Rightarrow> 'a list \<Rightarrow> nat option" where
  "index_of x [] = None"
| "index_of x (y # ys) = (if x = y then Some 0 else map_option Suc (index_of x ys))"

definition digit_char :: "nat \<Rightarrow> char" where
  "digit_char d = ''0123456789'' ! (d mod 10)"

definition digit_val :: "char \<Rightarrow> nat option" where
  "digit_val c = index_of c ''0123456789''"

fun show_nat :: "nat \<Rightarrow> string" where
  "show_nat n = (if n < 10 then [digit_char n] else show_nat (n div 10) @ [digit_char (n mod 10)])"

declare show_nat.simps [simp del]

definition show_int :: "int \<Rightarrow> string" where
  "show_int i = (if i < 0 then CHR ''-'' # show_nat (nat (- i)) else show_nat (nat i))"

definition hex_char :: "nat \<Rightarrow> char" where
  "hex_char d = ''0123456789abcdef'' ! (d mod 16)"

definition hex_val :: "char \<Rightarrow> nat option" where
  "hex_val c =
     (case index_of c ''0123456789abcdef'' of
        Some d \<Rightarrow> Some d
      | None \<Rightarrow> map_option (\<lambda>i. i + 10) (index_of c ''ABCDEF''))"

text \<open>One character of a string literal, as \<^verbatim>\<open>JSON.stringify\<close> writes it.\<close>

definition escape_char :: "char \<Rightarrow> string" where
  "escape_char c =
     (if c = CHR 0x22 then [CHR 0x5C, CHR 0x22]
      else if c = CHR 0x5C then [CHR 0x5C, CHR 0x5C]
      else if c = CHR 0x08 then [CHR 0x5C, CHR ''b'']
      else if c = CHR 0x0C then [CHR 0x5C, CHR ''f'']
      else if c = CHR 0x0A then [CHR 0x5C, CHR ''n'']
      else if c = CHR 0x0D then [CHR 0x5C, CHR ''r'']
      else if c = CHR 0x09 then [CHR 0x5C, CHR ''t'']
      else if (of_char c :: nat) < 32
        then [CHR 0x5C, CHR ''u'', CHR ''0'', CHR ''0'',
              hex_char (of_char c div 16), hex_char (of_char c mod 16)]
      else [c])"

definition quote :: "string \<Rightarrow> string" where
  "quote s = CHR 0x22 # concat (map escape_char s) @ [CHR 0x22]"

fun commas :: "string list \<Rightarrow> string" where
  "commas [] = []"
| "commas [s] = s"
| "commas (s # t # ss) = s @ CHR '','' # commas (t # ss)"

text \<open>
  A value that has no JSON text: \<^verbatim>\<open>undefined\<close> or a function. As a property of an
  object it is left out, as an element of an array it is written \<^verbatim>\<open>null\<close>, and
  \<^verbatim>\<open>JSON.stringify\<close> of such a value alone returns \<^verbatim>\<open>undefined\<close>, not a string.
\<close>

fun omitted :: "jsval \<Rightarrow> bool" where
  "omitted Undefined = True"
| "omitted Fun = True"
| "omitted (Frozen v) = omitted v"
| "omitted v = False"

fun stringify_value :: "jsval \<Rightarrow> string"
  and stringify_elements :: "jsval list \<Rightarrow> string list"
  and stringify_members :: "(string \<times> jsval) list \<Rightarrow> string list" where
  "stringify_value Undefined = ''null''"
| "stringify_value Null = ''null''"
| "stringify_value (Bool b) = (if b then ''true'' else ''false'')"
| "stringify_value (Num n) = show_int n"
| "stringify_value (Str s) = quote s"
| "stringify_value Fun = ''null''"
| "stringify_value (Arr xs ps) = CHR ''['' # commas (stringify_elements xs) @ '']''"
| "stringify_value (Obj ps) = CHR ''{'' # commas (stringify_members ps) @ ''}''"
| "stringify_value (Frozen v) = stringify_value v"
| "stringify_elements [] = []"
| "stringify_elements (x # xs) = stringify_value x # stringify_elements xs"
| "stringify_members [] = []"
| "stringify_members ((k, v) # ps) =
     (if omitted v then stringify_members ps
      else (quote k @ CHR '':'' # stringify_value v) # stringify_members ps)"

definition JSON_stringify :: "jsval \<Rightarrow> string option" where
  "JSON_stringify v = (if omitted v then None else Some (stringify_value v))"


text \<open>
  \<^verbatim>\<open>JSON.parse\<close>: a recursive-descent reader. Each function returns the value read and the
  rest of the text. A number with a fraction or an exponent and a \<^verbatim>\<open>\u\<close> escape
  above character 255 have no counterpart among the values modelled and are refused.
\<close>

definition is_ws :: "char \<Rightarrow> bool" where
  "is_ws c = (c = CHR '' '' \<or> c = CHR 0x09 \<or> c = CHR 0x0A \<or> c = CHR 0x0D)"

definition skip_ws :: "string \<Rightarrow> string" where
  "skip_ws s = dropWhile is_ws s"

definition unescape :: "char \<Rightarrow> char option" where
  "unescape e =
     (if e = CHR 0x22 then Some (CHR 0x22)
      else if e = CHR 0x5C then Some (CHR 0x5C)
      else if e = CHR ''/'' then Some (CHR ''/'')
      else if e = CHR ''b'' then Some (CHR 0x08)
      else if e = CHR ''f'' then Some (CHR 0x0C)
      else if e = CHR ''n'' then Some (CHR 0x0A)
      else if e = CHR ''r'' then Some (CHR 0x0D)
      else if e = CHR ''t'' then Some (CHR 0x09)
      else None)"

definition prepend :: "char \<Rightarrow> (string \<times> string) option \<Rightarrow> (string \<times> string) option" where
  "prepend c r = (case r of None \<Rightarrow> None | Some (s, rest) \<Rightarrow> Some (c # s, rest))"

text \<open>The characters of a string literal after its opening quote, up to the closing one.\<close>

fun parse_chars :: "string \<Rightarrow> (string \<times> string) option" where
  "parse_chars [] = None"
| "parse_chars (c # cs) =
     (if c = CHR 0x22 then Some ([], cs)
      else if c = CHR 0x5C then
        (case cs of
           [] \<Rightarrow> None
         | e # r \<Rightarrow>
             if e = CHR ''u'' then
               (case r of
                  a # b # h # l # r' \<Rightarrow>
                    (case (hex_val a, hex_val b, hex_val h, hex_val l) of
                       (Some x, Some y, Some hi, Some lo) \<Rightarrow>
                         if x = 0 \<and> y = 0 then prepend (char_of (16 * hi + lo)) (parse_chars r')
                         else None
                     | _ \<Rightarrow> None)
                | _ \<Rightarrow> None)
             else
               (case unescape e of
                  None \<Rightarrow> None
                | Some ch \<Rightarrow> prepend ch (parse_chars r)))
      else if (of_char c :: nat) < 32 then None
      else prepend c (parse_chars cs))"

fun read_digits :: "nat \<Rightarrow> string \<Rightarrow> nat \<times> string" where
  "read_digits acc [] = (acc, [])"
| "read_digits acc (c # cs) =
     (case digit_val c of
        None \<Rightarrow> (acc, c # cs)
      | Some d \<Rightarrow> read_digits (10 * acc + d) cs)"

definition parse_nat :: "string \<Rightarrow> (nat \<times> string) option" where
  "parse_nat s =
     (case s of
        [] \<Rightarrow> None
      | c # cs \<Rightarrow>
          (case digit_val c of
             None \<Rightarrow> None
           | Some d \<Rightarrow>
               let (n, rest) = (if d = 0 then (0, cs) else read_digits d cs)
               in (case rest of
                     [] \<Rightarrow> Some (n, rest)
                   | x # _ \<Rightarrow>
                       if digit_val x = None \<and> x \<noteq> CHR ''.'' \<and> x \<noteq> CHR ''e'' \<and> x \<noteq> CHR ''E''
                       then Some (n, rest) else None)))"

definition parse_number :: "string \<Rightarrow> (jsval \<times> string) option" where
  "parse_number s =
     (case s of
        [] \<Rightarrow> None
      | c # cs \<Rightarrow>
          if c = CHR ''-'' then
            (case parse_nat cs of None \<Rightarrow> None | Some (n, rest) \<Rightarrow> Some (Num (- int n), rest))
          else
            (case parse_nat s of None \<Rightarrow> None | Some (n, rest) \<Rightarrow> Some (Num (int n), rest)))"

definition parse_literal :: "string \<Rightarrow> (jsval \<times> string) option" where
  "parse_literal s =
     (if take 4 s = ''true'' then Some (Bool True, drop 4 s)
      else if take 5 s = ''false'' then Some (Bool False, drop 5 s)
      else if take 4 s = ''null'' then Some (Null, drop 4 s)
      else parse_number s)"

text \<open>
  The first argument bounds the number of nested calls; \<open>JSON_parse\<close> starts it above the
  length of the text, and every call reads at least one character.
\<close>

fun parse_value :: "nat \<Rightarrow> string \<Rightarrow> (jsval \<times> string) option"
  and parse_elements :: "nat \<Rightarrow> jsval list \<Rightarrow> string \<Rightarrow> (jsval \<times> string) option"
  and parse_members :: "nat \<Rightarrow> (string \<times> jsval) list \<Rightarrow> string \<Rightarrow> (jsval \<times> string) option" where
  "parse_value 0 s = None"
| "parse_value (Suc n) s =
     (case skip_ws s of
        [] \<Rightarrow> None
      | c # cs \<Rightarrow>
          if c = CHR ''['' then
            (case skip_ws cs of
               [] \<Rightarrow> None
             | d # ds \<Rightarrow> if d = CHR '']'' then Some (Arr [] [], ds) else parse_elements n [] cs)
          else if c = CHR ''{'' then
            (case skip_ws cs of
               [] \<Rightarrow> None
             | d # ds \<Rightarrow> if d = CHR ''}'' then Some (Obj [], ds) else parse_members n [] cs)
          else if c = CHR 0x22 then
            (case parse_chars cs of None \<Rightarrow> None | Some (str, rest) \<Rightarrow> Some (Str str, rest))
          else parse_literal (c # cs))"
| "parse_elements 0 acc s = None"
| "parse_elements (Suc n) acc s =
     (case parse_value n s of
        None \<Rightarrow> None
      | Some (v, rest) \<Rightarrow>
          (case skip_ws rest of
             [] \<Rightarrow> None
           | d # ds \<Rightarrow>
               if d = CHR '','' then parse_elements n (acc @ [v]) ds
               else if d = CHR '']'' then Some (Arr (acc @ [v]) [], ds)
               else None))"
| "parse_members 0 acc s = None"
| "parse_members (Suc n) acc s =
     (case skip_ws s of
        [] \<Rightarrow> None
      | q # cs \<Rightarrow>
          if q \<noteq> CHR 0x22 then None
          else
            (case parse_chars cs of
               None \<Rightarrow> None
             | Some (k, rest) \<Rightarrow>
                 (case skip_ws rest of
                    [] \<Rightarrow> None
                  | colon # r \<Rightarrow>
                      if colon \<noteq> CHR '':'' then None
                      else
                        (case parse_value n r of
                           None \<Rightarrow> None
                         | Some (v, rest') \<Rightarrow>
                             (case skip_ws rest' of
                                [] \<Rightarrow> None
                              | d # ds \<Rightarrow>
                                  if d = CHR '','' then parse_members n (assign k v acc) ds
                                  else if d = CHR ''}'' then Some (Obj (assign k v acc), ds)
                                  else None)))))"

definition JSON_parse :: "string \<Rightarrow> error + jsval" where
  "JSON_parse s =
     (case parse_value (Suc (length s)) s of
        None \<Rightarrow> Inl SyntaxError
      | Some (v, rest) \<Rightarrow> if skip_ws rest = [] then Inr v else Inl SyntaxError)"


subsection \<open>Data values\<close>

text \<open>
  The values JSON text stands for: \<^verbatim>\<open>null\<close>, booleans, numbers, strings, arrays of
  data values without further properties, and objects whose property names are distinct
  and whose property values are data values.
\<close>

fun is_data :: "jsval \<Rightarrow> bool"
  and are_data :: "jsval list \<Rightarrow> bool"
  and members_data :: "(string \<times> jsval) list \<Rightarrow> bool" where
  "is_data Null = True"
| "is_data (Bool b) = True"
| "is_data (Num n) = True"
| "is_data (Str s) = True"
| "is_data (Arr xs ps) = (ps = [] \<and> are_data xs)"
| "is_data (Obj ps) = (distinct (map fst ps) \<and> members_data ps)"
| "is_data Undefined = False"
| "is_data Fun = False"
| "is_data (Frozen v) = False"
| "are_data [] = True"
| "are_data (x # xs) = (is_data x \<and> are_data xs)"
| "members_data [] = True"
| "members_data ((k, v) # ps) = (is_data v \<and> members_data ps)"

text \<open>
  How many nested calls the reader makes on the JSON text of a value, and the characters
  at which a number, a value and the text after a value may begin.
\<close>

fun fuel_value :: "jsval \<Rightarrow> nat"
  and fuel_elements :: "jsval list \<Rightarrow> nat"
  and fuel_members :: "(string \<times> jsval) list \<Rightarrow> nat" where
  "fuel_value (Arr xs ps) = Suc (fuel_elements xs)"
| "fuel_value (Obj ps) = Suc (fuel_members ps)"
| "fuel_value (Frozen v) = fuel_value v"
| "fuel_value v = Suc 0"
| "fuel_elements [] = 0"
| "fuel_elements (x # xs) = Suc (max (fuel_value x) (fuel_elements xs))"
| "fuel_members [] = 0"
| "fuel_members ((k, v) # ps) = Suc (max (fuel_value v) (fuel_members ps))"

definition ends_value :: "string \<Rightarrow> bool" where
  "ends_value rest =
     (case rest of [] \<Rightarrow> True | x # _ \<Rightarrow> x = CHR '','' \<or> x = CHR '']'' \<or> x = CHR ''}'')"

definition ends_number :: "string \<Rightarrow> bool" where
  "ends_number rest =
     (case rest of [] \<Rightarrow> True
      | x # _ \<Rightarrow> digit_val x = None \<and> x \<noteq> CHR ''.'' \<and> x \<noteq> CHR ''e'' \<and> x \<noteq> CHR ''E'')"

definition starts_value :: "char \<Rightarrow> bool" where
  "starts_value c = (\<not> is_ws c \<and> c \<noteq> CHR '']'' \<and> c \<noteq> CHR ''}'' \<and> c \<noteq> CHR '','')"

section \<open>Property reads and writes\<close>

text \<open>
  An array index is the decimal text of a number below \<open>2\<^sup>3\<^sup>2 - 1\<close>, without leading
  zeros.
\<close>

definition array_index :: "string \<Rightarrow> nat option" where
  "array_index p =
     (case parse_nat p of
        None \<Rightarrow> None
      | Some (n, rest) \<Rightarrow> if rest = [] \<and> n < 4294967295 then Some n else None)"

text \<open>Writing an element at or past the end leaves holes, which read as \<^verbatim>\<open>undefined\<close>.\<close>

definition set_index :: "nat \<Rightarrow> jsval \<Rightarrow> jsval list \<Rightarrow> jsval list" where
  "set_index i v xs =
     (if i < length xs then xs[i := v] else xs @ replicate (i - length xs) Undefined @ [v])"

definition resize :: "nat \<Rightarrow> jsval list \<Rightarrow> jsval list" where
  "resize n xs = (if n \<le> length xs then take n xs else xs @ replicate (n - length xs) Undefined)"

text \<open>
  \<^verbatim>\<open>Reflect.set(obj, prop, value)\<close>: \<open>Inr (True, obj')\<close> when the write is applied and
  \<open>obj'\<close> is the object afterwards, \<open>Inr (False, obj)\<close> when the object rejects it,
  \<open>Inl e\<close> when it throws. A frozen object rejects every write. The name
  \<^verbatim>\<open>__proto__\<close> is an inherited setter: the write creates no own property. An array length
  that is not a number below \<open>2\<^sup>3\<^sup>2\<close> throws (the conversion of other values to a number
  is not modelled).
\<close>

fun Reflect_set :: "jsval \<Rightarrow> string \<Rightarrow> jsval \<Rightarrow> error + (bool \<times> jsval)" where
  "Reflect_set (Obj ps) p v =
     (if p = ''__proto__'' then Inr (True, Obj ps) else Inr (True, Obj (assign p v ps)))"
| "Reflect_set (Arr xs ps) p v =
     (case array_index p of
        Some i \<Rightarrow> Inr (True, Arr (set_index i v xs) ps)
      | None \<Rightarrow>
          if p = ''length'' then
            (case v of
               Num n \<Rightarrow>
                 if 0 \<le> n \<and> n < 4294967296 then Inr (True, Arr (resize (nat n) xs) ps)
                 else Inl RangeError
             | _ \<Rightarrow> Inl RangeError)
          else if p = ''__proto__'' then Inr (True, Arr xs ps)
          else Inr (True, Arr xs (assign p v ps)))"
| "Reflect_set (Frozen obj) p v =
     (if isObject obj then Inr (False, Frozen obj) else Inl TypeError)"
| "Reflect_set obj p v = Inl TypeError"

text \<open>Reading a property: the own properties; a missing one reads as \<^verbatim>\<open>undefined\<close>.\<close>

fun js_get :: "jsval \<Rightarrow> string \<Rightarrow> jsval" where
  "js_get (Obj ps) p = (case map_of ps p of Some v \<Rightarrow> v | None \<Rightarrow> Undefined)"
| "js_get (Arr xs ps) p =
     (case array_index p of
        Some i \<Rightarrow> if i < length xs then xs ! i else Undefined
      | None \<Rightarrow>
          if p = ''length'' then Num (int (length xs))
          else (case map_of ps p of Some v \<Rightarrow> v | None \<Rightarrow> Undefined))"
| "js_get (Frozen obj) p = js_get obj p"
| "js_get v p = Undefined"

section \<open>Paths\<close>

text \<open>
  \<^verbatim>\<open>path.join\<close> of Node's \<^verbatim>\<open>path\<close> module, as it works on a POSIX system, for the two
  arguments \<open>createFilePath\<close> gives it. The arguments that are not empty are put together
  with a slash between them, and the result is normalised.

  \<^verbatim>\<open>normalizeString\<close> goes through the segments between the slashes of a path, from left
  to right, and keeps the segments of the result, the last one first. An empty segment and
  \<^verbatim>\<open>.\<close> are dropped. \<^verbatim>\<open>..\<close> removes the segment kept last; when there is none to remove,
  or the one kept last is itself \<^verbatim>\<open>..\<close>, it is kept in a relative path and dropped in an
  absolute one. \<^verbatim>\<open>normalize\<close> puts the slash of an absolute path in front of the result
  and a slash at its end when the path had one there.
\<close>

fun split_slash :: "string \<Rightarrow> string list" where
  "split_slash [] = [[]]"
| "split_slash (c # cs) =
     (case split_slash cs of
        [] \<Rightarrow> [[c]]
      | s # ss \<Rightarrow> if c = CHR ''/'' then [] # s # ss else (c # s) # ss)"

fun join_slash :: "string list \<Rightarrow> string" where
  "join_slash [] = []"
| "join_slash [s] = s"
| "join_slash (s # t # ts) = s @ CHR ''/'' # join_slash (t # ts)"

definition keep_segment :: "bool \<Rightarrow> string list \<Rightarrow> string \<Rightarrow> string list" where
  "keep_segment allowAboveRoot res seg =
     (if seg = [] \<or> seg = ''.'' then res
      else if seg = ''..'' then
        (case res of
           [] \<Rightarrow> if allowAboveRoot then [''..''] else []
         | t # ts \<Rightarrow> if t = ''..'' then (if allowAboveRoot then ''..'' # res else res) else ts)
      else seg # res)"

definition normalizeString :: "string \<Rightarrow> bool \<Rightarrow> string" where
  "normalizeString path allowAboveRoot =
     join_slash (rev (foldl (keep_segment allowAboveRoot) [] (split_slash path)))"

definition normalize :: "string \<Rightarrow> string" where
  "normalize path =
     (if path = [] then ''.''
      else
        (let isAbsolute = (hd path = CHR ''/'');
             trailingSeparator = (last path = CHR ''/'');
             p = normalizeString path (\<not> isAbsolute)
         in if p = [] then (if isAbsolute then ''/'' else if trailingSeparator then ''./'' else ''.'')
            else (if isAbsolute then ''/'' else []) @ p @ (if trailingSeparator then ''/'' else [])))"

definition path_join :: "string \<Rightarrow> string \<Rightarrow> string" where
  "path_join a b =
     (let joined = (if a = [] then b else if b = [] then a else a @ CHR ''/'' # b)
      in if joined = [] then ''.'' else normalize joined)"

text \<open>
  The file a path names. The functions of \<^verbatim>\<open>fs\<close> are given a path as the program wrote
  it; which file is meant does not depend on how the path is spelled. \<open>locate\<close> gives
  the one spelling under which the file system below keeps a file or directory: the
  normalised path, without the slash at its end. So \<^verbatim>\<open>./.cashola\<close>, \<^verbatim>\<open>.cashola/\<close> and
  \<^verbatim>\<open>.cashola\<close> are one directory. A relative path is taken from the working directory of
  the process, which does not change. Symbolic links, and the absolute path of the working
  directory as a second name for it, are not modelled. The empty path, which names no file,
  does not occur: the storage directory is never empty and \<^verbatim>\<open>path.join\<close> never returns
  the empty path; \<open>locate\<close> takes it as \<^verbatim>\<open>path.normalize\<close> does.
\<close>

definition locate :: "string \<Rightarrow> string" where
  "locate p =
     (let q = normalize p
      in if q \<noteq> ''/'' \<and> q \<noteq> [] \<and> last q = CHR ''/'' then butlast q else q)"

text \<open>The directory a located path lies in.\<close>

definition dirname :: "string \<Rightarrow> string" where
  "dirname p =
     (if CHR ''/'' \<in> set p then
        (let d = rev (tl (dropWhile (\<lambda>c. c \<noteq> CHR ''/'') (rev p))) in if d = [] then ''/'' else d)
      else ''.'')"

text \<open>
  Three notions for reasoning about paths: a located path written from its segments, the
  segments \<^verbatim>\<open>normalizeString\<close> keeps of a path, in order, and the form the kept segments
  have at every step (none is empty, \<^verbatim>\<open>.\<close> or contains a slash, and \<^verbatim>\<open>..\<close> occurs only
  in a relative path, with nothing but \<^verbatim>\<open>..\<close> before it).
\<close>

definition render :: "bool \<Rightarrow> string list \<Rightarrow> string" where
  "render absolute segs =
     (if segs = [] then (if absolute then ''/'' else ''.'')
      else (if absolute then ''/'' else []) @ join_slash segs)"

definition segments_of :: "string \<Rightarrow> string list" where
  "segments_of p =
     rev (foldl (keep_segment (\<not> (p \<noteq> [] \<and> hd p = CHR ''/''))) [] (split_slash p))"

fun settled :: "bool \<Rightarrow> string list \<Rightarrow> bool" where
  "settled allow [] = True"
| "settled allow (t # ts) =
     (t \<noteq> [] \<and> t \<noteq> ''.'' \<and> CHR ''/'' \<notin> set t
      \<and> (if t = ''..'' then allow \<and> (case ts of [] \<Rightarrow> True | u # us \<Rightarrow> u = ''..'') else True)
      \<and> settled allow ts)"

text \<open>
  A directory given by a relative path that does not lead out of the working directory.
  For two such directories the located path tells whether they are the same directory.
\<close>

definition inside :: "string \<Rightarrow> bool" where
  "inside dir = (\<not> (dir \<noteq> [] \<and> hd dir = CHR ''/'') \<and> ''..'' \<notin> set (segments_of dir))"

section \<open>The file system\<close>

text \<open>
  The part of Node's \<^verbatim>\<open>fs\<close> module the library calls. A file system is the set of its
  directories and the text of its files, each under its located path. The blocking and the
  promise-returning function of each pair have the same effect and the same failures, so
  each pair is one function here; an argument that is \<^verbatim>\<open>undefined\<close> in JavaScript is
  \<open>None\<close>.
\<close>

record filesystem =
  dirs :: "string set"
  files :: "string \<rightharpoonup> string"

definition readFile :: "string option \<Rightarrow> filesystem \<Rightarrow> error + string" where
  "readFile path fs =
     (case path of
        None \<Rightarrow> Inl (SystemError ''ERR_INVALID_ARG_TYPE'')
      | Some p \<Rightarrow>
          (case files fs (locate p) of
             Some text \<Rightarrow> Inr text
           | None \<Rightarrow>
               if locate p \<in> dirs fs then Inl (SystemError ''EISDIR'')
               else Inl (SystemError ''ENOENT'')))"

definition writeFile :: "string option \<Rightarrow> string option \<Rightarrow> filesystem \<Rightarrow> error + filesystem" where
  "writeFile path data fs =
     (case path of
        None \<Rightarrow> Inl (SystemError ''ERR_INVALID_ARG_TYPE'')
      | Some p \<Rightarrow>
          (case data of
             None \<Rightarrow> Inl (SystemError ''ERR_INVALID_ARG_TYPE'')
           | Some text \<Rightarrow>
               if locate p \<in> dirs fs then Inl (SystemError ''EISDIR'')
               else if dirname (locate p) \<in> dirs fs then
                 Inr (fs\<lparr>files := (files fs)(locate p \<mapsto> text)\<rparr>)
               else if files fs (dirname (locate p)) = None then Inl (SystemError ''ENOENT'')
               else Inl (SystemError ''ENOTDIR'')))"

text \<open>
  \<^verbatim>\<open>mkdir(dir, { recursive: true })\<close>: an existing directory is no error. Only the
  directory itself is recorded, not the directories above it.
\<close>

definition mkdir :: "string \<Rightarrow> filesystem \<Rightarrow> error + filesystem" where
  "mkdir dir fs =
     (if files fs (locate dir) = None then Inr (fs\<lparr>dirs := insert (locate dir) (dirs fs)\<rparr>)
      else Inl (SystemError ''EEXIST''))"

text \<open>\<^verbatim>\<open>rm(path)\<close> without options removes one file.\<close>

definition rm :: "string \<Rightarrow> filesystem \<Rightarrow> error + filesystem" where
  "rm p fs =
     (case files fs (locate p) of
        Some text \<Rightarrow> Inr (fs\<lparr>files := (files fs)(locate p := None)\<rparr>)
      | None \<Rightarrow>
          if locate p \<in> dirs fs then Inl (SystemError ''ERR_FS_EISDIR'')
          else Inl (SystemError ''ENOENT''))"

text \<open>\<^verbatim>\<open>rm(dir, { recursive: true, force: true })\<close> removes a path and all below it.\<close>

definition below :: "string \<Rightarrow> string \<Rightarrow> bool" where
  "below dir p = (p = dir \<or> take (Suc (length dir)) p = dir @ ''/'')"

definition rm_recursive_force :: "string \<Rightarrow> filesystem \<Rightarrow> filesystem" where
  "rm_recursive_force dir fs =
     fs\<lparr>dirs := {d \<in> dirs fs. \<not> below (locate dir) d},
        files := (\<lambda>p. if below (locate dir) p then None else files fs p)\<rparr>"


section \<open>Valid file names\<close>

text \<open>
  \<^verbatim>\<open>isValidFilename\<close> comes from the package \<^verbatim>\<open>valid-filename\<close>: a name is valid when
  it is not empty, has at most 255 characters, contains none of the characters
  \<^verbatim>\<open><>:"/\|?*\<close> and no control character, is not a reserved Windows device name
  (whatever the case of its letters) and is neither \<^verbatim>\<open>.\<close> nor \<^verbatim>\<open>..\<close>.
\<close>

definition reserved_char :: "char \<Rightarrow> bool" where
  "reserved_char c =
     (c = CHR ''<'' \<or> c = CHR ''>'' \<or> c = CHR '':'' \<or> c = CHR 0x22 \<or> c = CHR ''/''
      \<or> c = CHR 0x5C \<or> c = CHR ''|'' \<or> c = CHR ''?'' \<or> c = CHR ''*''
      \<or> (of_char c :: nat) < 32)"

definition same_letter :: "char \<Rightarrow> char \<Rightarrow> bool" where
  "same_letter c l = ((of_char c :: nat) = of_char l \<or> (of_char c :: nat) + 32 = of_char l)"

fun matches_ci :: "string \<Rightarrow> string \<Rightarrow> bool" where
  "matches_ci [] [] = True"
| "matches_ci (c # cs) (l # ls) = (same_letter c l \<and> matches_ci cs ls)"
| "matches_ci cs ls = False"

definition windowsReservedName :: "string \<Rightarrow> bool" where
  "windowsReservedName s =
     (matches_ci s ''con'' \<or> matches_ci s ''prn'' \<or> matches_ci s ''aux'' \<or> matches_ci s ''nul''
      \<or> (case rev s of
            [] \<Rightarrow> False
          | d # r \<Rightarrow>
              (if digit_val d = None then False
               else matches_ci (rev r) ''com'' \<or> matches_ci (rev r) ''lpt'')))"

definition isValidFilename :: "string \<Rightarrow> bool" where
  "isValidFilename s =
     (s \<noteq> [] \<and> length s \<le> 255 \<and> filter reserved_char s = [] \<and> \<not> windowsReservedName s
      \<and> s \<noteq> ''.'' \<and> s \<noteq> ''..'')"

section \<open>The class Cashola\<close>

text \<open>
  The three private fields of the class. \<open>keyToFileMap\<close> is the object literal
  \<^verbatim>\<open>{}\<close> used as a dictionary from key to file path; its own properties are kept in
  insertion order, as \<^verbatim>\<open>Object.keys\<close> lists them.
\<close>

record cashola =
  ignoreCashola :: bool
  storageDir :: string
  keyToFileMap :: "(string \<times> string) list"

text \<open>The options of \<^verbatim>\<open>configure\<close>; each may be absent.\<close>

record config =
  conf_storageDir :: "string option"
  conf_ignoreCasholaEnvVar :: "string option"
  conf_ignoreCashola :: "bool option"

text \<open>
  \<^verbatim>\<open>new Cashola()\<close>, given the environment variables of the process.
\<close>

definition new_Cashola :: "(string \<rightharpoonup> string) \<Rightarrow> cashola" where
  "new_Cashola env =
     \<lparr>ignoreCashola = (env ''IGNORE_CASHOLA'' = Some ''true''),
      storageDir = ''.cashola'',
      keyToFileMap = []\<rparr>"

text \<open>
  \<^verbatim>\<open>key in this.keyToFileMap\<close>: true for an own property and for every name inherited
  from \<^verbatim>\<open>Object.prototype\<close>.
\<close>

definition key_in :: "string \<Rightarrow> (string \<times> string) list \<Rightarrow> bool" where
  "key_in key m = (key \<in> fst ` set m \<or> key \<in> set objectPrototypeNames)"

text \<open>
  \<^verbatim>\<open>this.keyToFileMap[key]\<close> where a path is expected: the recorded path, or a value
  that is no path (\<open>None\<close>) when the key has no own entry.
\<close>

definition lookup :: "cashola \<Rightarrow> string \<Rightarrow> string option" where
  "lookup st key = map_of (keyToFileMap st) key"

text \<open>The result of a function that can throw, next to the file system it leaves.\<close>

definition save :: "string \<Rightarrow> jsval \<Rightarrow> cashola \<Rightarrow> filesystem \<Rightarrow> (error + unit) \<times> filesystem" where
  "save key obj st fs =
     (let str = JSON_stringify obj in
      case writeFile (lookup st key) str fs of
        Inr fs' \<Rightarrow> (Inr (), fs')
      | Inl err \<Rightarrow>
          if code err = Some ''ENOENT'' then
            (case mkdir (storageDir st) fs of
               Inl e \<Rightarrow> (Inl e, fs)
             | Inr fs1 \<Rightarrow>
                 (case writeFile (lookup st key) str fs1 of
                    Inl e \<Rightarrow> (Inl e, fs1)
                  | Inr fs2 \<Rightarrow> (Inr (), fs2)))
          else (Inr (), fs))"

definition saveSync :: "string \<Rightarrow> jsval \<Rightarrow> cashola \<Rightarrow> filesystem \<Rightarrow> (error + unit) \<times> filesystem" where
  "saveSync key obj st fs =
     (let str = JSON_stringify obj in
      case writeFile (lookup st key) str fs of
        Inr fs' \<Rightarrow> (Inr (), fs')
      | Inl err \<Rightarrow>
          if code err = Some ''ENOENT'' then
            (case mkdir (storageDir st) fs of
               Inl e \<Rightarrow> (Inl e, fs)
             | Inr fs1 \<Rightarrow>
                 (case writeFile (lookup st key) str fs1 of
                    Inl e \<Rightarrow> (Inl e, fs1)
                  | Inr fs2 \<Rightarrow> (Inr (), fs2)))
          else (Inr (), fs))"

definition load :: "string \<Rightarrow> cashola \<Rightarrow> filesystem \<Rightarrow> error + jsval" where
  "load key st fs =
     (case readFile (lookup st key) fs of
        Inl e \<Rightarrow> Inl e
      | Inr str \<Rightarrow> JSON_parse str)"

definition loadSync :: "string \<Rightarrow> cashola \<Rightarrow> filesystem \<Rightarrow> error + jsval" where
  "loadSync key st fs =
     (case readFile (lookup st key) fs of
        Inl e \<Rightarrow> Inl e
      | Inr str \<Rightarrow> JSON_parse str)"

definition checkSameType :: "jsval \<Rightarrow> jsval \<Rightarrow> string \<Rightarrow> error + unit" where
  "checkSameType a b key =
     (if \<not> (isArray a \<and> isArray b) \<and> \<not> (\<not> isArray a \<and> \<not> isArray b) then
        (let type = (if isArray b then ''array'' else ''object'')
         in Inl (ShapeMismatchError key type))
      else Inr ())"

definition safeLoad :: "string \<Rightarrow> jsval \<Rightarrow> cashola \<Rightarrow> filesystem \<Rightarrow> error + jsval" where
  "safeLoad key obj st fs =
     (case load key st fs of
        Inl e \<Rightarrow> Inl e
      | Inr tmpObj \<Rightarrow>
          (case checkSameType obj tmpObj key of
             Inl e \<Rightarrow> Inl e
           | Inr u \<Rightarrow> Inr tmpObj))"

definition safeLoadSync :: "string \<Rightarrow> jsval \<Rightarrow> cashola \<Rightarrow> filesystem \<Rightarrow> error + jsval" where
  "safeLoadSync key obj st fs =
     (case loadSync key st fs of
        Inl e \<Rightarrow> Inl e
      | Inr tmpObj \<Rightarrow>
          (case checkSameType obj tmpObj key of
             Inl e \<Rightarrow> Inl e
           | Inr u \<Rightarrow> Inr tmpObj))"

definition createFilePath :: "cashola \<Rightarrow> string \<Rightarrow> string" where
  "createFilePath st key = path_join (storageDir st) (key @ ''.json'')"

text \<open>
  \<open>checkInput\<close> throws, or records the key and returns whether the library is in use.
  The key is recorded before the ignore flag is looked at.
\<close>

definition checkInput :: "string \<Rightarrow> jsval \<Rightarrow> cashola \<Rightarrow> (error + bool) \<times> cashola" where
  "checkInput key obj st =
     (if typeof obj \<noteq> ''object'' then (Inl (TypeKindError (typeof obj)), st)
      else if key_in key (keyToFileMap st) then (Inl (DuplicateKeyError key), st)
      else if \<not> isValidFilename key then (Inl (InvalidKeyError key), st)
      else
        (let st' = st\<lparr>keyToFileMap := keyToFileMap st @ [(key, createFilePath st key)]\<rparr>
         in if ignoreCashola st' then (Inr False, st') else (Inr True, st')))"

definition configure :: "(string \<rightharpoonup> string) \<Rightarrow> config \<Rightarrow> cashola \<Rightarrow> cashola" where
  "configure env conf st =
     (let st1 = (case conf_storageDir conf of
                   None \<Rightarrow> st
                 | Some d \<Rightarrow> if d = [] then st else st\<lparr>storageDir := d\<rparr>);
          st2 = (case conf_ignoreCasholaEnvVar conf of
                   None \<Rightarrow> st1
                 | Some name \<Rightarrow>
                     if name = [] then st1
                     else st1\<lparr>ignoreCashola := (env name = Some ''true'')\<rparr>)
      in if conf_ignoreCashola conf = Some True then st2\<lparr>ignoreCashola := True\<rparr> else st2)"


section \<open>Live bindings\<close>

text \<open>
  The handler objects built by \<^verbatim>\<open>getHandler(key)\<close> and \<^verbatim>\<open>getHandlerSync(key)\<close>, and
  what a \<^verbatim>\<open>remember\<close> function returns: the plain value it was given, or a
  \<^verbatim>\<open>Proxy\<close> over a target with one of the two handlers.
\<close>

datatype handler = Handler string | HandlerSync string

datatype retval = Plain jsval | Proxy jsval handler

text \<open>\<^verbatim>\<open>new Proxy(target, handler)\<close> throws unless the target is an object.\<close>

definition new_Proxy :: "jsval \<Rightarrow> handler \<Rightarrow> error + retval" where
  "new_Proxy target h = (if isObject target then Inr (Proxy target h) else Inl TypeError)"

text \<open>
  The \<^verbatim>\<open>set\<close> trap of each handler, given the target, the property and the value: what
  the trap returns or throws, the target afterwards and the file system afterwards. The
  trap of \<^verbatim>\<open>getHandler\<close> starts \<^verbatim>\<open>save\<close> and does not look at its outcome; the write is
  taken here as completed before the next operation.
\<close>

definition getHandler_set ::
  "string \<Rightarrow> jsval \<Rightarrow> string \<Rightarrow> jsval \<Rightarrow> cashola \<Rightarrow> filesystem \<Rightarrow> (error + bool) \<times> jsval \<times> filesystem" where
  "getHandler_set key obj prop v st fs =
     (case Reflect_set obj prop v of
        Inl e \<Rightarrow> (Inl e, obj, fs)
      | Inr (applied, obj') \<Rightarrow>
          if \<not> applied then (Inr False, obj', fs)
          else (Inr True, obj', snd (save key obj' st fs)))"

definition getHandlerSync_set ::
  "string \<Rightarrow> jsval \<Rightarrow> string \<Rightarrow> jsval \<Rightarrow> cashola \<Rightarrow> filesystem \<Rightarrow> (error + bool) \<times> jsval \<times> filesystem" where
  "getHandlerSync_set key obj prop v st fs =
     (case Reflect_set obj prop v of
        Inl e \<Rightarrow> (Inl e, obj, fs)
      | Inr (applied, obj') \<Rightarrow>
          if \<not> applied then (Inr False, obj', fs)
          else
            (case saveSync key obj' st fs of
               (Inl e, fs') \<Rightarrow> (Inl e, obj', fs')
             | (Inr u, fs') \<Rightarrow> (Inr True, obj', fs')))"

text \<open>
  A property write and a property read on a returned value. A proxy passes the write to
  the trap of its handler; neither handler has a \<^verbatim>\<open>get\<close> trap, so a read goes to the
  target.
\<close>

fun proxy_set ::
  "retval \<Rightarrow> string \<Rightarrow> jsval \<Rightarrow> cashola \<Rightarrow> filesystem \<Rightarrow> (error + bool) \<times> retval \<times> filesystem" where
  "proxy_set (Proxy obj (Handler key)) prop v st fs =
     (case getHandler_set key obj prop v st fs of
        (r, obj', fs') \<Rightarrow> (r, Proxy obj' (Handler key), fs'))"
| "proxy_set (Proxy obj (HandlerSync key)) prop v st fs =
     (case getHandlerSync_set key obj prop v st fs of
        (r, obj', fs') \<Rightarrow> (r, Proxy obj' (HandlerSync key), fs'))"
| "proxy_set (Plain obj) prop v st fs =
     (case Reflect_set obj prop v of
        Inl e \<Rightarrow> (Inl e, Plain obj, fs)
      | Inr (applied, obj') \<Rightarrow> (Inr applied, Plain obj', fs))"

fun proxy_get :: "retval \<Rightarrow> string \<Rightarrow> jsval" where
  "proxy_get (Proxy obj h) prop = js_get obj prop"
| "proxy_get (Plain obj) prop = js_get obj prop"

section \<open>The public functions\<close>

text \<open>
  Each function takes the state of the \<^verbatim>\<open>Cashola\<close> instance and the file system and
  returns them updated, next to the value returned or the error thrown. A promise-returning
  function is taken as awaited: it runs to its end before anything else happens. An
  argument left out is \<open>Undefined\<close> and takes the parameter's default.
\<close>

definition remember ::
  "string \<Rightarrow> jsval \<Rightarrow> cashola \<Rightarrow> filesystem \<Rightarrow> (error + retval) \<times> cashola \<times> filesystem" where
  "remember key arg st fs =
     (let obj = (if arg = Undefined then Obj [] else arg) in
      case checkInput key obj st of
        (Inl e, st') \<Rightarrow> (Inl e, st', fs)
      | (Inr ok, st') \<Rightarrow>
          if \<not> ok then (Inr (Plain obj), st', fs)
          else
            (case safeLoad key obj st' fs of
               Inr tmpObj \<Rightarrow> (new_Proxy tmpObj (Handler key), st', fs)
             | Inl err \<Rightarrow>
                 if code err = Some ''ENOENT'' then
                   (case save key obj st' fs of
                      (Inl e, fs') \<Rightarrow> (Inl e, st', fs')
                    | (Inr u, fs') \<Rightarrow> (new_Proxy obj (Handler key), st', fs'))
                 else (new_Proxy obj (Handler key), st', fs)))"

definition rememberSync ::
  "string \<Rightarrow> jsval \<Rightarrow> cashola \<Rightarrow> filesystem \<Rightarrow> (error + retval) \<times> cashola \<times> filesystem" where
  "rememberSync key arg st fs =
     (let obj = (if arg = Undefined then Obj [] else arg) in
      case checkInput key obj st of
        (Inl e, st') \<Rightarrow> (Inl e, st', fs)
      | (Inr ok, st') \<Rightarrow>
          if \<not> ok then (Inr (Plain obj), st', fs)
          else
            (case safeLoadSync key obj st' fs of
               Inr tmpObj \<Rightarrow> (new_Proxy tmpObj (HandlerSync key), st', fs)
             | Inl err \<Rightarrow>
                 if code err = Some ''ENOENT'' then
                   (case saveSync key obj st' fs of
                      (Inl e, fs') \<Rightarrow> (Inl e, st', fs')
                    | (Inr u, fs') \<Rightarrow> (new_Proxy obj (HandlerSync key), st', fs'))
                 else (new_Proxy obj (HandlerSync key), st', fs)))"

definition rememberArray ::
  "string \<Rightarrow> jsval \<Rightarrow> cashola \<Rightarrow> filesystem \<Rightarrow> (error + retval) \<times> cashola \<times> filesystem" where
  "rememberArray key arg st fs =
     (let obj = (if arg = Undefined then Arr [] [] else arg) in
      case checkInput key obj st of
        (Inl e, st') \<Rightarrow> (Inl e, st', fs)
      | (Inr ok, st') \<Rightarrow>
          if \<not> ok then (Inr (Plain obj), st', fs)
          else
            (case safeLoad key obj st' fs of
               Inr tmpObj \<Rightarrow> (new_Proxy tmpObj (Handler key), st', fs)
             | Inl err \<Rightarrow>
                 if code err = Some ''ENOENT'' then
                   (case save key obj st' fs of
                      (Inl e, fs') \<Rightarrow> (Inl e, st', fs')
                    | (Inr u, fs') \<Rightarrow> (new_Proxy obj (Handler key), st', fs'))
                 else (new_Proxy obj (Handler key), st', fs)))"

definition rememberArraySync ::
  "string \<Rightarrow> jsval \<Rightarrow> cashola \<Rightarrow> filesystem \<Rightarrow> (error + retval) \<times> cashola \<times> filesystem" where
  "rememberArraySync key arg st fs =
     (let obj = (if arg = Undefined then Arr [] [] else arg) in
      case checkInput key obj st of
        (Inl e, st') \<Rightarrow> (Inl e, st', fs)
      | (Inr ok, st') \<Rightarrow>
          if \<not> ok then (Inr (Plain obj), st', fs)
          else
            (case safeLoadSync key obj st' fs of
               Inr tmpObj \<Rightarrow> (new_Proxy tmpObj (HandlerSync key), st', fs)
             | Inl err \<Rightarrow>
                 if code err = Some ''ENOENT'' then
                   (case saveSync key obj st' fs of
                      (Inl e, fs') \<Rightarrow> (Inl e, st', fs')
                    | (Inr u, fs') \<Rightarrow> (new_Proxy obj (HandlerSync key), st', fs'))
                 else (new_Proxy obj (HandlerSync key), st', fs)))"

definition clearSync :: "string \<Rightarrow> cashola \<Rightarrow> filesystem \<Rightarrow> (error + unit) \<times> filesystem" where
  "clearSync key st fs =
     (let p = createFilePath st key in
      case rm p fs of
        Inl e \<Rightarrow> (Inl e, fs)
      | Inr fs' \<Rightarrow> (Inr (), fs'))"

definition clear :: "string \<Rightarrow> cashola \<Rightarrow> filesystem \<Rightarrow> (error + unit) \<times> filesystem" where
  "clear key st fs =
     (let p = createFilePath st key in
      case rm p fs of
        Inl e \<Rightarrow> (Inl e, fs)
      | Inr fs' \<Rightarrow> (Inr (), fs'))"

definition clearAllSync :: "cashola \<Rightarrow> filesystem \<Rightarrow> filesystem" where
  "clearAllSync st fs = rm_recursive_force (storageDir st) fs"

definition clearAll :: "cashola \<Rightarrow> filesystem \<Rightarrow> filesystem" where
  "clearAll st fs = rm_recursive_force (storageDir st) fs"

definition list_keys :: "cashola \<Rightarrow> string list" where
  "list_keys st = map fst (keyToFileMap st)"


text \<open>The four functions the module exports for binding a key, by name.\<close>

datatype entry_point = Remember | RememberSync | RememberArray | RememberArraySync

fun exported ::
  "entry_point \<Rightarrow> string \<Rightarrow> jsval \<Rightarrow> cashola \<Rightarrow> filesystem \<Rightarrow> (error + retval) \<times> cashola \<times> filesystem" where
  "exported Remember = remember"
| "exported RememberSync = rememberSync"
| "exported RememberArray = rememberArray"
| "exported RememberArraySync = rememberArraySync"

text \<open>The handler each of them installs, and the key a handler writes for.\<close>

fun handler_of :: "entry_point \<Rightarrow> string \<Rightarrow> handler" where
  "handler_of Remember key = Handler key"
| "handler_of RememberSync key = HandlerSync key"
| "handler_of RememberArray key = Handler key"
| "handler_of RememberArraySync key = HandlerSync key"

fun handler_key :: "handler \<Rightarrow> string" where
  "handler_key (Handler key) = key"
| "handler_key (HandlerSync key) = key"

section \<open>Starting points for the scenarios\<close>

text \<open>
  A process without environment variables, the instance it creates, and a working
  directory in which no storage directory exists yet.
\<close>

definition no_env :: "string \<rightharpoonup> string" where
  "no_env = Map.empty"

definition fresh :: cashola where
  "fresh = new_Cashola no_env"

definition no_storage :: filesystem where
  "no_storage = \<lparr>dirs = {''.''}, files = Map.empty\<rparr>"

text \<open>The same instance after \<^verbatim>\<open>configure({ ignoreCashola: true })\<close>.\<close>

definition ignoring :: cashola where
  "ignoring =
     configure no_env
       \<lparr>conf_storageDir = None, conf_ignoreCasholaEnvVar = None, conf_ignoreCashola = Some True\<rparr>
       fresh"

text \<open>A storage directory holding one file.\<close>

definition storage_with :: "string \<Rightarrow> string \<Rightarrow> filesystem" where
  "storage_with path body = \<lparr>dirs = {''.'', ''.cashola''}, files = [path \<mapsto> body]\<rparr>"

text \<open>
  An instance that bound the key \<^verbatim>\<open>counter\<close> under the default directory and was then
  given another storage directory, and a file system holding a file of that name in each
  of the two directories.
\<close>

definition moved :: cashola where
  "moved =
     configure no_env
       \<lparr>conf_storageDir = Some ''elsewhere'', conf_ignoreCasholaEnvVar = None,
          conf_ignoreCashola = None\<rparr>
       (fresh\<lparr>keyToFileMap := [(''counter'', ''.cashola/counter.json'')]\<rparr>)"

text \<open>
  The same instance given the directory it already has, spelled \<^verbatim>\<open>./.cashola\<close>.
\<close>

definition respelled :: cashola where
  "respelled =
     configure no_env
       \<lparr>conf_storageDir = Some ''./.cashola'', conf_ignoreCasholaEnvVar = None,
          conf_ignoreCashola = None\<rparr>
       (fresh\<lparr>keyToFileMap := [(''counter'', ''.cashola/counter.json'')]\<rparr>)"

definition two_dirs :: filesystem where
  "two_dirs =
     \<lparr>dirs = {''.cashola'', ''elsewhere''},
      files = [''.cashola/counter.json'' \<mapsto> ''{\"count\":0}'',
               ''elsewhere/counter.json'' \<mapsto> ''[]'']\<rparr>"

section \<open>Facts about the platform model\<close>

text \<open>The unfolding rules that evaluate a scenario on concrete values.\<close>

lemmas platform_defs =
  JSON_parse_def JSON_stringify_def skip_ws_def is_ws_def parse_literal_def parse_number_def
  parse_nat_def digit_val_def digit_char_def prepend_def show_int_def show_nat.simps quote_def
  escape_char_def readFile_def writeFile_def mkdir_def rm_def dirname_def path_join_def
  normalize_def normalizeString_def keep_segment_def locate_def split_slash.simps
  isValidFilename_def reserved_char_def windowsReservedName_def same_letter_def key_in_def
  objectPrototypeNames_def new_Proxy_def

lemmas cashola_defs =
  remember_def rememberSync_def rememberArray_def rememberArraySync_def checkInput_def
  createFilePath_def lookup_def save_def saveSync_def load_def loadSync_def safeLoad_def
  safeLoadSync_def checkSameType_def new_Cashola_def configure_def clear_def clearSync_def
  fresh_def ignoring_def no_env_def no_storage_def storage_with_def list_keys_def

subsection \<open>Paths\<close>

text \<open>
  A path is split at its slashes, and segments without a slash joined by slashes are split
  into themselves again.
\<close>

lemma split_slash_not_Nil [simp]: "split_slash p \<noteq> []"
  by (induction p) (auto split: list.splits)

lemma split_slash_slash [simp]: "split_slash (CHR ''/'' # cs) = [] # split_slash cs"
  by (cases "split_slash cs") simp_all

declare split_slash.simps(2) [simp del]

lemma split_slash_other:
  "c \<noteq> CHR ''/'' \<Longrightarrow> split_slash (c # cs) = (c # hd (split_slash cs)) # tl (split_slash cs)"
  by (cases "split_slash cs") (simp_all add: split_slash.simps(2))

lemma split_slash_append: "split_slash (a @ CHR ''/'' # b) = split_slash a @ split_slash b"
proof (induction a)
  case Nil
  show ?case by simp
next
  case (Cons c a)
  show ?case
  proof (cases "c = CHR ''/''")
    case True
    then show ?thesis using Cons by simp
  next
    case False
    then show ?thesis using Cons by (simp add: split_slash_other)
  qed
qed

lemma split_slash_plain: "CHR ''/'' \<notin> set s \<Longrightarrow> split_slash s = [s]"
  by (induction s) (auto simp: split_slash.simps(2))

lemma split_slash_segments: "s \<in> set (split_slash p) \<Longrightarrow> CHR ''/'' \<notin> set s"
proof (induction p arbitrary: s)
  case Nil
  then show ?case by simp
next
  case (Cons c p)
  show ?case
  proof (cases "c = CHR ''/''")
    case True
    then show ?thesis using Cons by auto
  next
    case False
    then show ?thesis
      using Cons.prems Cons.IH [of "hd (split_slash p)"] Cons.IH [of s]
      by (cases "split_slash p") (auto simp: split_slash_other)
  qed
qed

text \<open>
  The segments kept have the settled form at every step, and going through segments of
  that form again keeps them all.
\<close>

lemma keep_segment_settled:
  "settled allow res \<Longrightarrow> CHR ''/'' \<notin> set seg \<Longrightarrow> settled allow (keep_segment allow res seg)"
proof (cases "seg = [] \<or> seg = ''.''")
  case True
  assume "settled allow res"
  then show ?thesis using True by (auto simp: keep_segment_def)
next
  case False
  assume s: "settled allow res" and n: "CHR ''/'' \<notin> set seg"
  show ?thesis
  proof (cases "seg = ''..''")
    case dots: True
    show ?thesis
    proof (cases res)
      case Nil
      then show ?thesis using dots by (simp add: keep_segment_def)
    next
      case (Cons t ts)
      show ?thesis
      proof (cases "t = ''..''")
        case True
        then show ?thesis using dots Cons s by (cases allow) (simp_all add: keep_segment_def)
      next
        case other: False
        then have "keep_segment allow res seg = ts"
          using dots Cons by (simp add: keep_segment_def)
        moreover have "settled allow ts"
          using s Cons by simp
        ultimately show ?thesis by simp
      qed
    qed
  next
    case other: False
    then have "keep_segment allow res seg = seg # res"
      using False by (simp add: keep_segment_def)
    then show ?thesis
      using False other s n by simp
  qed
qed

lemma foldl_settled:
  "settled allow res \<Longrightarrow> \<forall>s \<in> set segs. CHR ''/'' \<notin> set s \<Longrightarrow>
   settled allow (foldl (keep_segment allow) res segs)"
  by (induction segs arbitrary: res) (simp_all add: keep_segment_settled)

lemma settled_keep:
  assumes "settled allow (t # ts)"
  shows "keep_segment allow ts t = t # ts"
proof (cases "t = ''..''")
  case True
  then have a: "allow" and b: "case ts of [] \<Rightarrow> True | u # us \<Rightarrow> u = ''..''"
    using assms by simp_all
  show ?thesis
  proof (cases ts)
    case Nil
    then show ?thesis using True a by (simp add: keep_segment_def)
  next
    case (Cons u us)
    then have "u = ''..''" using b by simp
    then show ?thesis using True a Cons by (simp add: keep_segment_def)
  qed
next
  case False
  moreover have "t \<noteq> []" "t \<noteq> ''.''"
    using assms by simp_all
  ultimately show ?thesis by (simp add: keep_segment_def)
qed

lemma settled_refold: "settled allow res \<Longrightarrow> foldl (keep_segment allow) [] (rev res) = res"
proof (induction res)
  case Nil
  show ?case by simp
next
  case (Cons t ts)
  then have "foldl (keep_segment allow) [] (rev ts) = ts"
    by simp
  then show ?case
    using settled_keep [OF Cons.prems] by simp
qed

lemma settled_segments: "settled allow res \<Longrightarrow> s \<in> set res \<Longrightarrow> s \<noteq> [] \<and> CHR ''/'' \<notin> set s"
proof (induction res)
  case Nil
  then show ?case by simp
next
  case (Cons t ts)
  have "t \<noteq> [] \<and> CHR ''/'' \<notin> set t" "settled allow ts"
    using Cons.prems(1) by simp_all
  then show ?case
    using Cons.IH Cons.prems(2) by (cases "s = t") simp_all
qed

lemma settled_segments_of: "settled (\<not> (p \<noteq> [] \<and> hd p = CHR ''/'')) (rev (segments_of p))"
  unfolding segments_of_def rev_rev_ident
  by (rule foldl_settled) (auto dest: split_slash_segments)

text \<open>Segments joined by slashes.\<close>

lemma join_slash_Nil_iff: "\<forall>s \<in> set segs. s \<noteq> [] \<Longrightarrow> join_slash segs = [] \<longleftrightarrow> segs = []"
  by (induction segs rule: join_slash.induct) simp_all

lemma join_slash_snoc: "segs \<noteq> [] \<Longrightarrow> join_slash (segs @ [s]) = join_slash segs @ CHR ''/'' # s"
  by (induction segs rule: join_slash.induct) simp_all

lemma split_join_slash:
  "segs \<noteq> [] \<Longrightarrow> \<forall>s \<in> set segs. CHR ''/'' \<notin> set s \<Longrightarrow> split_slash (join_slash segs) = segs"
proof (induction segs rule: join_slash.induct)
  case 1
  then show ?case by simp
next
  case (2 s)
  then show ?case by (simp add: split_slash_plain)
next
  case (3 s t ts)
  then show ?case by (simp add: split_slash_append split_slash_plain)
qed

lemma hd_not_slash: "s \<noteq> [] \<Longrightarrow> CHR ''/'' \<notin> set s \<Longrightarrow> hd s \<noteq> CHR ''/''"
  by (cases s) auto

lemma last_not_slash: "s \<noteq> [] \<Longrightarrow> CHR ''/'' \<notin> set s \<Longrightarrow> last s \<noteq> CHR ''/''"
  by (induction s) auto

lemma hd_join_slash:
  "segs \<noteq> [] \<Longrightarrow> \<forall>s \<in> set segs. s \<noteq> [] \<and> CHR ''/'' \<notin> set s \<Longrightarrow> hd (join_slash segs) \<noteq> CHR ''/''"
proof (induction segs rule: join_slash.induct)
  case 1
  then show ?case by simp
next
  case (2 s)
  then show ?case by (simp add: hd_not_slash)
next
  case (3 s t ts)
  then show ?case by (simp add: hd_append hd_not_slash)
qed

lemma last_join_slash:
  "segs \<noteq> [] \<Longrightarrow> \<forall>s \<in> set segs. s \<noteq> [] \<and> CHR ''/'' \<notin> set s \<Longrightarrow> last (join_slash segs) \<noteq> CHR ''/''"
proof (induction segs rule: join_slash.induct)
  case 1
  then show ?case by simp
next
  case (2 s)
  then show ?case by (simp add: last_not_slash)
next
  case (3 s t ts)
  then have "join_slash (t # ts) \<noteq> []"
    by (subst join_slash_Nil_iff) simp_all
  then show ?case using 3 by simp
qed

text \<open>
  A located path is the kept segments of the path written out, and locating it again
  changes nothing.
\<close>

lemma locate_render: "locate p = render (p \<noteq> [] \<and> hd p = CHR ''/'') (segments_of p)"
proof (cases "p = []")
  case True
  then show ?thesis
    by (simp add: locate_def normalize_def render_def segments_of_def keep_segment_def)
next
  case False
  let ?segs = "segments_of p"
  have ok: "\<forall>s \<in> set ?segs. s \<noteq> [] \<and> CHR ''/'' \<notin> set s"
    using settled_segments [OF settled_segments_of [of p]] by simp
  have ns: "normalizeString p (\<not> hd p = CHR ''/'') = join_slash ?segs"
    using False by (simp add: normalizeString_def segments_of_def)
  show ?thesis
  proof (cases "?segs = []")
    case True
    then show ?thesis
      using False ns by (simp add: locate_def normalize_def render_def Let_def)
  next
    case nonempty: False
    then have j: "join_slash ?segs \<noteq> []" "last (join_slash ?segs) \<noteq> CHR ''/''"
      using ok by (simp_all add: join_slash_Nil_iff last_join_slash)
    then show ?thesis
      using False ns nonempty
      by (simp add: locate_def normalize_def render_def Let_def butlast_append)
  qed
qed

lemma normalize_locate: "p \<noteq> [] \<Longrightarrow> last p \<noteq> CHR ''/'' \<Longrightarrow> normalize p = locate p"
proof -
  assume p: "p \<noteq> []" "last p \<noteq> CHR ''/''"
  let ?segs = "segments_of p"
  have ok: "\<forall>s \<in> set ?segs. s \<noteq> [] \<and> CHR ''/'' \<notin> set s"
    using settled_segments [OF settled_segments_of [of p]] by simp
  have ns: "normalizeString p (\<not> hd p = CHR ''/'') = join_slash ?segs"
    using p by (simp add: normalizeString_def segments_of_def)
  have "normalize p = render (p \<noteq> [] \<and> hd p = CHR ''/'') ?segs"
    using p ns ok by (auto simp: normalize_def render_def Let_def join_slash_Nil_iff)
  then show ?thesis by (simp add: locate_render)
qed

lemma segments_of_render:
  assumes "settled (\<not> absolute) (rev segs)"
  shows "segments_of (render absolute segs) = segs
       \<and> (render absolute segs \<noteq> [] \<and> hd (render absolute segs) = CHR ''/'') = absolute"
proof (cases "segs = []")
  case True
  then show ?thesis
    by (simp add: render_def segments_of_def keep_segment_def split_slash.simps(2))
next
  case False
  have ok: "\<forall>s \<in> set segs. s \<noteq> [] \<and> CHR ''/'' \<notin> set s"
    using settled_segments [OF assms] by simp
  have sp: "split_slash (join_slash segs) = segs"
    using False ok by (simp add: split_join_slash)
  have hd: "hd (join_slash segs) \<noteq> CHR ''/''" "join_slash segs \<noteq> []"
    using False ok by (simp_all add: hd_join_slash join_slash_Nil_iff)
  have re: "foldl (keep_segment (\<not> absolute)) [] segs = rev segs"
    using settled_refold [OF assms] by simp
  show ?thesis
  proof (cases absolute)
    case True
    then show ?thesis
      using False sp re by (simp add: render_def segments_of_def keep_segment_def)
  next
    case rel: False
    then show ?thesis
      using False sp re hd by (simp add: render_def segments_of_def)
  qed
qed

lemma locate_idem: "locate (locate p) = locate p"
proof -
  let ?a = "p \<noteq> [] \<and> hd p = CHR ''/''"
  note r = segments_of_render [OF settled_segments_of [of p]]
  have "locate (render ?a (segments_of p)) = render ?a (segments_of p)"
    unfolding locate_render [of "render ?a (segments_of p)"] using r by simp
  then show ?thesis by (simp add: locate_render [of p])
qed

text \<open>
  What \<^verbatim>\<open>path.join\<close> returns for a file name is a located path, and the directory it
  lies in is the directory given, as located.
\<close>

lemma locate_path_join:
  assumes "name \<noteq> []" "last name \<noteq> CHR ''/''"
  shows "locate (path_join d name) = path_join d name"
proof -
  let ?j = "if d = [] then name else d @ CHR ''/'' # name"
  have j: "?j \<noteq> []" "last ?j \<noteq> CHR ''/''"
    using assms by auto
  have "path_join d name = normalize ?j"
    using assms by (simp add: path_join_def)
  also have "\<dots> = locate ?j"
    using j by (rule normalize_locate)
  finally show ?thesis by (simp add: locate_idem)
qed

lemma dirname_slash:
  "CHR ''/'' \<notin> set name \<Longrightarrow> dirname (x @ CHR ''/'' # name) = (if x = [] then ''/'' else x)"
proof -
  assume "CHR ''/'' \<notin> set name"
  then have "dropWhile (\<lambda>c. c \<noteq> CHR ''/'') (rev name @ CHR ''/'' # rev x) = CHR ''/'' # rev x"
    by (subst dropWhile_append2) auto
  then show ?thesis by (simp add: dirname_def)
qed

lemma path_join_render:
  assumes "CHR ''/'' \<notin> set name" "name \<noteq> []" "name \<noteq> ''.''" "name \<noteq> ''..''"
  shows "path_join d name = render (d \<noteq> [] \<and> hd d = CHR ''/'') (segments_of d @ [name])"
proof -
  let ?j = "if d = [] then name else d @ CHR ''/'' # name"
  have j: "?j \<noteq> []" "last ?j \<noteq> CHR ''/''"
    using assms(2) last_not_slash [OF assms(2,1)] by auto
  have "path_join d name = normalize ?j"
    using assms by (simp add: path_join_def)
  also have "\<dots> = locate ?j"
    using j by (rule normalize_locate)
  also have "\<dots> = render (d \<noteq> [] \<and> hd d = CHR ''/'') (segments_of d @ [name])"
  proof (cases "d = []")
    case True
    have "hd name \<noteq> CHR ''/''"
      using assms(1,2) by (simp add: hd_not_slash)
    then show ?thesis
      using True assms by (simp add: locate_render segments_of_def split_slash_plain keep_segment_def)
  next
    case False
    then show ?thesis
      using assms
      by (simp add: locate_render segments_of_def split_slash_append split_slash_plain
          keep_segment_def)
  qed
  finally show ?thesis .
qed

lemma dirname_path_join:
  assumes "CHR ''/'' \<notin> set name" "name \<noteq> []" "name \<noteq> ''.''" "name \<noteq> ''..''"
  shows "dirname (path_join d name) = locate d"
proof -
  let ?segs = "segments_of d"
  have ok: "\<forall>s \<in> set ?segs. s \<noteq> [] \<and> CHR ''/'' \<notin> set s"
    using settled_segments [OF settled_segments_of [of d]] by simp
  have no: "dirname name = ''.''"
    using assms(1) by (simp add: dirname_def)
  show ?thesis
  proof (cases "?segs = []")
    case True
    then show ?thesis
      using assms no dirname_slash [OF assms(1), of "[]"]
      by (simp add: path_join_render locate_render render_def)
  next
    case False
    then have "join_slash ?segs \<noteq> []"
      using ok by (simp add: join_slash_Nil_iff)
    then show ?thesis
      using False assms dirname_slash [OF assms(1), of "join_slash ?segs"]
        dirname_slash [OF assms(1), of "CHR ''/'' # join_slash ?segs"]
      by (simp add: path_join_render locate_render render_def join_slash_snoc)
  qed
qed

text \<open>
  Two directories give a file name the same path exactly when they are the same directory.
\<close>

lemma path_join_same_iff:
  assumes "CHR ''/'' \<notin> set name" "name \<noteq> []" "name \<noteq> ''.''" "name \<noteq> ''..''"
  shows "path_join d name = path_join d' name \<longleftrightarrow> locate d = locate d'"
proof
  assume "path_join d name = path_join d' name"
  then have "dirname (path_join d name) = dirname (path_join d' name)"
    by simp
  then show "locate d = locate d'"
    using assms by (simp add: dirname_path_join)
next
  assume same: "locate d = locate d'"
  note r = segments_of_render [OF settled_segments_of [of d]]
  note r' = segments_of_render [OF settled_segments_of [of d']]
  have e: "render (d \<noteq> [] \<and> hd d = CHR ''/'') (segments_of d) =
           render (d' \<noteq> [] \<and> hd d' = CHR ''/'') (segments_of d')"
    using same by (simp add: locate_render)
  have "segments_of d = segments_of d'"
    using r [THEN conjunct1] r' [THEN conjunct1] e by simp
  moreover have "(d \<noteq> [] \<and> hd d = CHR ''/'') = (d' \<noteq> [] \<and> hd d' = CHR ''/'')"
    using r [THEN conjunct2] r' [THEN conjunct2] e by simp
  ultimately show "path_join d name = path_join d' name"
    using assms by (simp add: path_join_render)
qed

lemma path_join_not_dir:
  assumes "CHR ''/'' \<notin> set name" "name \<noteq> []" "name \<noteq> ''.''" "name \<noteq> ''..''"
  shows "path_join d name \<noteq> locate d"
proof (cases "segments_of d = []")
  case True
  then show ?thesis
    using assms by (auto simp: path_join_render locate_render render_def)
next
  case False
  then show ?thesis
    using assms by (simp add: path_join_render locate_render render_def join_slash_snoc)
qed

lemma valid_no_slash:
  assumes "isValidFilename key"
  shows "CHR ''/'' \<notin> set (key @ ''.json'')"
proof -
  have "filter reserved_char key = []"
    using assms by (simp add: isValidFilename_def)
  then have "\<forall>c \<in> set key. \<not> reserved_char c"
    by (simp add: filter_empty_conv)
  moreover have "reserved_char (CHR ''/'')"
    by (simp add: reserved_char_def)
  ultimately have "CHR ''/'' \<notin> set key"
    by blast
  then show ?thesis by simp
qed

lemma json_name:
  "key @ ''.json'' \<noteq> [] \<and> key @ ''.json'' \<noteq> ''.'' \<and> key @ ''.json'' \<noteq> ''..''
   \<and> last (key @ ''.json'') \<noteq> CHR ''/''"
proof -
  have "length (key @ ''.json'') \<ge> 5"
    by simp
  then have "key @ ''.json'' \<noteq> ''.''" "key @ ''.json'' \<noteq> ''..''"
    by (auto dest: arg_cong [where f = length])
  then show ?thesis by simp
qed

lemma isObject_typeof: "isObject v \<Longrightarrow> typeof v = ''object''"
  by (induction v) auto

lemma typeof_object_not_Undefined: "typeof obj = ''object'' \<Longrightarrow> obj \<noteq> Undefined"
  by auto

lemma isObject_not_omitted: "isObject v \<Longrightarrow> \<not> omitted v"
  by (induction v) auto

lemma map_of_assign: "map_of (assign k v ps) k = Some v"
  by (induction ps) auto

lemma length_resize: "length (resize n xs) = n"
  by (simp add: resize_def)

lemma set_index_nth: "set_index i v xs ! i = v \<and> i < length (set_index i v xs)"
  by (simp add: set_index_def nth_append)

lemma Reflect_set_isObject:
  "Reflect_set obj p v = Inr (applied, obj') \<Longrightarrow> isObject obj'"
  by (induction obj p v rule: Reflect_set.induct)
     (auto split: option.splits if_splits jsval.splits)

lemma Reflect_set_rejected:
  "Reflect_set obj p v = Inr (False, obj') \<Longrightarrow> obj' = obj"
  by (induction obj p v rule: Reflect_set.induct)
     (auto split: option.splits if_splits jsval.splits)

text \<open>A write that was applied is what the next read of that property returns.\<close>

lemma Reflect_set_get:
  assumes "Reflect_set obj p v = Inr (True, obj')" "p \<noteq> ''__proto__''"
  shows "js_get obj' p = v"
  using assms
proof (induction obj p v rule: Reflect_set.induct)
  case (1 ps p v)
  then show ?case by (auto simp: map_of_assign)
next
  case (2 xs ps p v)
  show ?case
  proof (cases "array_index p")
    case (Some i)
    with 2 show ?thesis by (auto simp: set_index_nth)
  next
    case None
    with 2 show ?thesis
      by (auto simp: map_of_assign length_resize split: if_splits jsval.splits)
  qed
qed (auto split: if_splits)

section \<open>JSON text read back\<close>

text \<open>
  \<^verbatim>\<open>JSON.parse\<close> reads the text \<^verbatim>\<open>JSON.stringify\<close> writes for a data value back as
  that value: first numbers, then strings, then values by induction along
  \<open>stringify_value\<close>.
\<close>

lemma digit_val_digit_char: "d < 10 \<Longrightarrow> digit_val (digit_char d) = Some d"
proof -
  assume "d < 10"
  then have "d \<in> {0, 1, 2, 3, 4, 5, 6, 7, 8, 9}" by auto
  then show ?thesis
    by (auto simp: digit_char_def digit_val_def)
qed

lemma read_digits_show_nat:
  "read_digits acc (show_nat n @ rest) = read_digits (acc * 10 ^ length (show_nat n) + n) rest"
proof (induction n arbitrary: acc rest rule: show_nat.induct)
  case (1 n)
  show ?case
  proof (cases "n < 10")
    case True
    then show ?thesis
      by (simp add: show_nat.simps [of n] digit_val_digit_char mult.commute)
  next
    case False
    have "read_digits acc (show_nat n @ rest) =
          read_digits acc (show_nat (n div 10) @ digit_char (n mod 10) # rest)"
      using False by (simp add: show_nat.simps [of n])
    also have "\<dots> = read_digits (acc * 10 ^ length (show_nat (n div 10)) + n div 10)
                        (digit_char (n mod 10) # rest)"
      using 1 [OF False] by simp
    also have "\<dots> = read_digits (10 * (acc * 10 ^ length (show_nat (n div 10)) + n div 10) + n mod 10) rest"
      by (simp add: digit_val_digit_char)
    also have "10 * (acc * 10 ^ length (show_nat (n div 10)) + n div 10) + n mod 10 =
               acc * 10 ^ length (show_nat n) + n"
      using False by (simp add: show_nat.simps [of n] algebra_simps)
    finally show ?thesis .
  qed
qed

lemma read_digits_end: "ends_number rest \<Longrightarrow> read_digits a rest = (a, rest)"
  by (cases rest) (auto simp: ends_number_def)

lemma show_nat_first:
  "\<exists>c cs d. show_nat n = c # cs \<and> digit_val c = Some d \<and> (d = 0 \<longrightarrow> n = 0 \<and> cs = [])"
proof (induction n rule: show_nat.induct)
  case (1 n)
  show ?case
  proof (cases "n < 10")
    case True
    then show ?thesis
      by (simp add: show_nat.simps [of n] digit_val_digit_char)
  next
    case False
    then obtain c cs d where h: "show_nat (n div 10) = c # cs" "digit_val c = Some d"
        "d = 0 \<longrightarrow> n div 10 = 0 \<and> cs = []"
      using 1 by blast
    have "n div 10 \<noteq> 0" using False by simp
    then have "d \<noteq> 0" using h(3) by auto
    then show ?thesis
      using False h by (simp add: show_nat.simps [of n])
  qed
qed

lemma ends_number_check:
  "ends_number rest \<Longrightarrow>
   (case rest of [] \<Rightarrow> Some (m, rest)
    | x # _ \<Rightarrow> if digit_val x = None \<and> x \<noteq> CHR ''.'' \<and> x \<noteq> CHR ''e'' \<and> x \<noteq> CHR ''E''
               then Some (m, rest) else None) = Some (m, rest)"
  by (cases rest) (auto simp: ends_number_def)

lemma parse_nat_show_nat:
  assumes "ends_number rest"
  shows "parse_nat (show_nat n @ rest) = Some (n, rest)"
proof -
  obtain c cs d where h: "show_nat n = c # cs" "digit_val c = Some d"
      "d = 0 \<longrightarrow> n = 0 \<and> cs = []"
    using show_nat_first by blast
  have rd: "read_digits 0 (show_nat n @ rest) = (n, rest)"
    using read_digits_end [OF assms] by (simp add: read_digits_show_nat)
  show ?thesis
  proof (cases "d = 0")
    case True
    then show ?thesis
      using h ends_number_check [OF assms] by (simp add: parse_nat_def)
  next
    case False
    have "read_digits d (cs @ rest) = (n, rest)"
      using rd h by simp
    then show ?thesis
      using False h ends_number_check [OF assms] by (simp add: parse_nat_def)
  qed
qed

lemma digit_val_minus: "digit_val (CHR ''-'') = None"
  by (simp add: digit_val_def)

lemma parse_number_show_int:
  assumes "ends_number rest"
  shows "parse_number (show_int i @ rest) = Some (Num i, rest)"
proof (cases "i < 0")
  case True
  then show ?thesis
    using parse_nat_show_nat [OF assms, of "nat (- i)"]
    by (simp add: parse_number_def show_int_def)
next
  case False
  obtain c cs d where h: "show_nat (nat i) = c # cs" "digit_val c = Some d"
    using show_nat_first by blast
  have "c \<noteq> CHR ''-''" using h(2) digit_val_minus by auto
  then show ?thesis
    using False h(1) parse_nat_show_nat [OF assms, of "nat i"]
    by (simp add: parse_number_def show_int_def)
qed

lemma hex_val_hex_char_all: "list_all (\<lambda>d. hex_val (hex_char d) = Some d) [0..<16]"
  by code_simp

lemma hex_val_hex_char: "d < 16 \<Longrightarrow> hex_val (hex_char d) = Some d"
  using hex_val_hex_char_all by (simp add: list_all_iff)

lemma hex_val_zero: "hex_val (CHR ''0'') = Some 0"
  by (simp add: hex_val_def)

lemma parse_chars_escape_char:
  "parse_chars (escape_char c @ tail) = prepend c (parse_chars tail)"
proof -
  consider (special) "c \<in> {CHR 0x22, CHR 0x5C, CHR 0x08, CHR 0x0C, CHR 0x0A, CHR 0x0D, CHR 0x09}"
    | (control) "c \<notin> {CHR 0x22, CHR 0x5C, CHR 0x08, CHR 0x0C, CHR 0x0A, CHR 0x0D, CHR 0x09}"
        "(of_char c :: nat) < 32"
    | (plain) "c \<notin> {CHR 0x22, CHR 0x5C, CHR 0x08, CHR 0x0C, CHR 0x0A, CHR 0x0D, CHR 0x09}"
        "\<not> (of_char c :: nat) < 32"
    by blast
  then show ?thesis
  proof cases
    case special
    then show ?thesis
      by (auto simp: escape_char_def unescape_def)
  next
    case control
    let ?n = "of_char c :: nat"
    have d: "?n div 16 < 16" "?n mod 16 < 16"
      using control(2) by auto
    have "char_of (16 * (?n div 16) + ?n mod 16) = c"
      by simp
    then show ?thesis
      using control d
      by (simp add: escape_char_def hex_val_hex_char hex_val_zero)
  next
    case plain
    then show ?thesis
      by (simp add: escape_char_def)
  qed
qed

lemma parse_chars_quoted:
  "parse_chars (concat (map escape_char s) @ CHR 0x22 # rest) = Some (s, rest)"
  by (induction s) (simp_all add: parse_chars_escape_char prepend_def)

lemma digit_val_separator:
  "digit_val (CHR '','') = None" "digit_val (CHR '']'') = None" "digit_val (CHR ''}'') = None"
  by (simp_all add: digit_val_def)

lemma ends_value_number: "ends_value rest \<Longrightarrow> ends_number rest"
  by (cases rest) (auto simp: ends_value_def ends_number_def digit_val_separator)

lemma show_int_first:
  "\<exists>c cs. show_int i = c # cs \<and> (c = CHR ''-'' \<or> digit_val c \<noteq> None)"
proof -
  obtain c cs d where "show_nat (nat i) = c # cs" "digit_val c = Some d"
    using show_nat_first by blast
  then show ?thesis
    by (simp add: show_int_def)
qed

lemma digit_or_minus_facts:
  assumes "c = CHR ''-'' \<or> digit_val c \<noteq> None"
  shows "\<not> is_ws c \<and> c \<noteq> CHR ''['' \<and> c \<noteq> CHR '']'' \<and> c \<noteq> CHR ''{'' \<and> c \<noteq> CHR ''}''
       \<and> c \<noteq> CHR '','' \<and> c \<noteq> CHR 0x22 \<and> c \<noteq> CHR ''t'' \<and> c \<noteq> CHR ''f'' \<and> c \<noteq> CHR ''n''"
  using assms by (auto simp: is_ws_def digit_val_def)

lemma stringify_value_first:
  "is_data v \<Longrightarrow> \<exists>c cs. stringify_value v = c # cs \<and> starts_value c"
proof (cases v)
  case (Num i)
  obtain c cs where "show_int i = c # cs" "c = CHR ''-'' \<or> digit_val c \<noteq> None"
    using show_int_first by blast
  then show ?thesis
    using Num digit_or_minus_facts [of c] by (simp add: starts_value_def)
qed (auto simp: starts_value_def is_ws_def quote_def)

lemma skip_ws_start: "\<not> is_ws c \<Longrightarrow> skip_ws (c # cs) = c # cs"
  by (simp add: skip_ws_def)

lemma parse_literal_number:
  assumes "ends_number rest"
  shows "parse_literal (show_int i @ rest) = Some (Num i, rest)"
proof -
  obtain c cs where h: "show_int i = c # cs" "c = CHR ''-'' \<or> digit_val c \<noteq> None"
    using show_int_first by blast
  have "c \<noteq> CHR ''t'' \<and> c \<noteq> CHR ''f'' \<and> c \<noteq> CHR ''n''"
    using digit_or_minus_facts [OF h(2)] by simp
  then have "parse_literal (show_int i @ rest) = parse_number (show_int i @ rest)"
    using h(1) by (simp add: parse_literal_def)
  then show ?thesis
    using parse_number_show_int [OF assms] by simp
qed

lemma parse_value_atom:
  assumes "ends_value rest"
  shows "parse_value (Suc n) (''null'' @ rest) = Some (Null, rest)"
    and "parse_value (Suc n) (''true'' @ rest) = Some (Bool True, rest)"
    and "parse_value (Suc n) (''false'' @ rest) = Some (Bool False, rest)"
    and "parse_value (Suc n) (quote s @ rest) = Some (Str s, rest)"
    and "parse_value (Suc n) (show_int i @ rest) = Some (Num i, rest)"
proof -
  show "parse_value (Suc n) (''null'' @ rest) = Some (Null, rest)"
    by (simp add: skip_ws_def is_ws_def parse_literal_def)
  show "parse_value (Suc n) (''true'' @ rest) = Some (Bool True, rest)"
    by (simp add: skip_ws_def is_ws_def parse_literal_def)
  show "parse_value (Suc n) (''false'' @ rest) = Some (Bool False, rest)"
    by (simp add: skip_ws_def is_ws_def parse_literal_def)
  show "parse_value (Suc n) (quote s @ rest) = Some (Str s, rest)"
    by (simp add: skip_ws_def is_ws_def quote_def parse_chars_quoted)
  obtain c cs where h: "show_int i = c # cs" "c = CHR ''-'' \<or> digit_val c \<noteq> None"
    using show_int_first by blast
  note f = digit_or_minus_facts [OF h(2)]
  have "parse_value (Suc n) (show_int i @ rest) = parse_literal (show_int i @ rest)"
    using h(1) f by (simp add: skip_ws_start)
  then show "parse_value (Suc n) (show_int i @ rest) = Some (Num i, rest)"
    using parse_literal_number [OF ends_value_number [OF assms]] by simp
qed

lemma commas_append:
  "commas (t # ts) @ r = t @ (if ts = [] then r else CHR '','' # commas ts @ r)"
  by (cases ts) simp_all

lemma is_data_not_omitted: "is_data v \<Longrightarrow> \<not> omitted v"
  by (cases v) simp_all

lemma stringify_elements_Nil: "stringify_elements xs = [] \<longleftrightarrow> xs = []"
  by (cases xs) simp_all

lemma stringify_members_Nil: "members_data ps \<Longrightarrow> stringify_members ps = [] \<longleftrightarrow> ps = []"
  by (cases ps) (auto simp: is_data_not_omitted)

lemma assign_fresh: "k \<notin> fst ` set ps \<Longrightarrow> assign k v ps = ps @ [(k, v)]"
  by (induction ps) auto

lemma ends_value_simps:
  "ends_value (CHR '','' # r)" "ends_value (CHR '']'' # r)" "ends_value (CHR ''}'' # r)"
  "ends_value []"
  by (simp_all add: ends_value_def)

lemma skip_ws_separator:
  "skip_ws (CHR '','' # r) = CHR '','' # r" "skip_ws (CHR '']'' # r) = CHR '']'' # r"
  "skip_ws (CHR ''}'' # r) = CHR ''}'' # r" "skip_ws (CHR '':'' # r) = CHR '':'' # r"
  "skip_ws (CHR 0x22 # r) = CHR 0x22 # r" "skip_ws (CHR ''['' # r) = CHR ''['' # r"
  "skip_ws (CHR ''{'' # r) = CHR ''{'' # r"
  by (simp_all add: skip_ws_def is_ws_def)

lemma parse_roundtrip:
  "is_data v \<longrightarrow> (\<forall>n rest. fuel_value v \<le> n \<longrightarrow> ends_value rest \<longrightarrow>
      parse_value n (stringify_value v @ rest) = Some (v, rest))"
  "are_data xs \<longrightarrow> xs \<noteq> [] \<longrightarrow> (\<forall>n acc rest. fuel_elements xs \<le> n \<longrightarrow>
      parse_elements n acc (commas (stringify_elements xs) @ CHR '']'' # rest) =
        Some (Arr (acc @ xs) [], rest))"
  "members_data ps \<longrightarrow> ps \<noteq> [] \<longrightarrow> (\<forall>n acc rest. fuel_members ps \<le> n \<longrightarrow>
      distinct (map fst (acc @ ps)) \<longrightarrow>
      parse_members n acc (commas (stringify_members ps) @ CHR ''}'' # rest) =
        Some (Obj (acc @ ps), rest))"
proof (induction v and xs and ps rule: stringify_value_stringify_elements_stringify_members.induct)
  case 1
  show ?case by simp
next
  case 2
  show ?case
  proof (intro impI allI)
    fix n rest assume "fuel_value Null \<le> n" "ends_value rest"
    then obtain m where "n = Suc m" by (cases n) auto
    then show "parse_value n (stringify_value Null @ rest) = Some (Null, rest)"
      using parse_value_atom(1) [OF \<open>ends_value rest\<close>] by simp
  qed
next
  case (3 b)
  show ?case
  proof (intro impI allI)
    fix n rest assume "fuel_value (Bool b) \<le> n" "ends_value rest"
    then obtain m where "n = Suc m" by (cases n) auto
    then show "parse_value n (stringify_value (Bool b) @ rest) = Some (Bool b, rest)"
      using parse_value_atom(2,3) [OF \<open>ends_value rest\<close>] by (cases b) simp_all
  qed
next
  case (4 i)
  show ?case
  proof (intro impI allI)
    fix n rest assume "fuel_value (Num i) \<le> n" "ends_value rest"
    then obtain m where "n = Suc m" by (cases n) auto
    then show "parse_value n (stringify_value (Num i) @ rest) = Some (Num i, rest)"
      using parse_value_atom(5) [OF \<open>ends_value rest\<close>] by simp
  qed
next
  case (5 s)
  show ?case
  proof (intro impI allI)
    fix n rest assume "fuel_value (Str s) \<le> n" "ends_value rest"
    then obtain m where "n = Suc m" by (cases n) auto
    then show "parse_value n (stringify_value (Str s) @ rest) = Some (Str s, rest)"
      using parse_value_atom(4) [OF \<open>ends_value rest\<close>] by simp
  qed
next
  case 6
  show ?case by simp
next
  case (7 xs ps)
  show ?case
  proof (intro impI allI)
    fix n rest
    assume d: "is_data (Arr xs ps)" and f: "fuel_value (Arr xs ps) \<le> n"
    then obtain m where m: "n = Suc m" "fuel_elements xs \<le> m" by (cases n) auto
    have ps: "ps = []" and xs: "are_data xs" using d by simp_all
    show "parse_value n (stringify_value (Arr xs ps) @ rest) = Some (Arr xs ps, rest)"
    proof (cases xs)
      case Nil
      then show ?thesis using m ps by (simp add: skip_ws_separator)
    next
      case (Cons x xs')
      then have "is_data x" using xs by simp
      then obtain c cs where c: "stringify_value x = c # cs" "starts_value c"
        using stringify_value_first by blast
      let ?body = "commas (stringify_elements xs) @ CHR '']'' # rest"
      obtain more where more: "?body = c # more"
        using Cons c(1) by (simp add: commas_append)
      have "parse_elements m [] ?body = Some (Arr xs [], rest)"
        using 7 xs m(2) Cons by simp
      then show ?thesis
        using m(1) ps more c(2)
        by (simp add: skip_ws_separator skip_ws_start starts_value_def)
    qed
  qed
next
  case (8 ps)
  show ?case
  proof (intro impI allI)
    fix n rest
    assume d: "is_data (Obj ps)" and f: "fuel_value (Obj ps) \<le> n"
    then obtain m where m: "n = Suc m" "fuel_members ps \<le> m" by (cases n) auto
    have dist: "distinct (map fst ps)" and ps: "members_data ps" using d by simp_all
    show "parse_value n (stringify_value (Obj ps) @ rest) = Some (Obj ps, rest)"
    proof (cases ps)
      case Nil
      then show ?thesis using m by (simp add: skip_ws_separator)
    next
      case (Cons kv ps')
      obtain k v where kv: "kv = (k, v)" by (cases kv)
      have "\<not> omitted v" using ps Cons kv by (simp add: is_data_not_omitted)
      let ?body = "commas (stringify_members ps) @ CHR ''}'' # rest"
      obtain more where more: "?body = CHR 0x22 # more"
        using Cons kv \<open>\<not> omitted v\<close> by (simp add: commas_append quote_def)
      have "parse_members m [] ?body = Some (Obj ps, rest)"
        using 8 ps m(2) Cons dist by simp
      then show ?thesis
        using m(1) more by (simp add: skip_ws_separator)
    qed
  qed
next
  case (9 v)
  show ?case by simp
next
  case 10
  show ?case by simp
next
  case (11 x xs)
  show ?case
  proof (intro impI allI)
    fix n acc rest
    assume d: "are_data (x # xs)" and f: "fuel_elements (x # xs) \<le> n"
    then obtain m where m: "n = Suc m" "fuel_value x \<le> m" "fuel_elements xs \<le> m"
      by (cases n) auto
    have x: "is_data x" and xs: "are_data xs" using d by simp_all
    let ?tail = "if xs = [] then CHR '']'' # rest
                 else CHR '','' # commas (stringify_elements xs) @ CHR '']'' # rest"
    have e: "ends_value ?tail" by (simp add: ends_value_simps)
    have shape: "commas (stringify_elements (x # xs)) @ CHR '']'' # rest = stringify_value x @ ?tail"
      by (simp add: commas_append stringify_elements_Nil)
    have pv: "parse_value m (stringify_value x @ ?tail) = Some (x, ?tail)"
      using 11(1) x m(2) e by blast
    show "parse_elements n acc (commas (stringify_elements (x # xs)) @ CHR '']'' # rest) =
            Some (Arr (acc @ x # xs) [], rest)"
    proof (cases "xs = []")
      case True
      then show ?thesis
        using pv m(1) unfolding shape by (simp add: skip_ws_separator)
    next
      case False
      then have "parse_elements m (acc @ [x]) (commas (stringify_elements xs) @ CHR '']'' # rest) =
          Some (Arr ((acc @ [x]) @ xs) [], rest)"
        using 11(2) xs m(3) by blast
      then show ?thesis
        using pv m(1) False unfolding shape by (simp add: skip_ws_separator)
    qed
  qed
next
  case 12
  show ?case by simp
next
  case (13 k v ps)
  show ?case
  proof (intro impI allI)
    fix n acc rest
    assume d: "members_data ((k, v) # ps)" and f: "fuel_members ((k, v) # ps) \<le> n"
      and dist: "distinct (map fst (acc @ (k, v) # ps))"
    then obtain m where m: "n = Suc m" "fuel_value v \<le> m" "fuel_members ps \<le> m"
      by (cases n) auto
    have v: "is_data v" and ps: "members_data ps" using d by simp_all
    have nom: "\<not> omitted v" using v by (rule is_data_not_omitted)
    have fresh: "k \<notin> fst ` set acc" using dist by auto
    let ?tail = "if ps = [] then CHR ''}'' # rest
                 else CHR '','' # commas (stringify_members ps) @ CHR ''}'' # rest"
    have e: "ends_value ?tail" by (simp add: ends_value_simps)
    have shape: "commas (stringify_members ((k, v) # ps)) @ CHR ''}'' # rest =
               CHR 0x22 # concat (map escape_char k) @ CHR 0x22 # CHR '':'' # stringify_value v @ ?tail"
      using nom ps by (simp add: commas_append stringify_members_Nil quote_def)
    have pv: "parse_value m (stringify_value v @ ?tail) = Some (v, ?tail)"
      using 13(2) nom v m(2) e by blast
    show "parse_members n acc (commas (stringify_members ((k, v) # ps)) @ CHR ''}'' # rest) =
            Some (Obj (acc @ (k, v) # ps), rest)"
    proof (cases "ps = []")
      case True
      then show ?thesis
        using pv m(1) fresh unfolding shape
        by (simp add: skip_ws_separator parse_chars_quoted assign_fresh)
    next
      case False
      have "distinct (map fst ((acc @ [(k, v)]) @ ps))" using dist by simp
      then have "parse_members m (acc @ [(k, v)]) (commas (stringify_members ps) @ CHR ''}'' # rest) =
          Some (Obj ((acc @ [(k, v)]) @ ps), rest)"
        using 13(3) nom ps m(3) False by blast
      then show ?thesis
        using pv m(1) False fresh unfolding shape
        by (simp add: skip_ws_separator parse_chars_quoted assign_fresh)
    qed
  qed
qed

lemma length_commas_Cons:
  "length (commas (t # ts)) = length t + (if ts = [] then 0 else Suc (length (commas ts)))"
  by (cases ts) simp_all

lemma show_int_nonempty: "0 < length (show_int i)"
  using show_int_first [of i] by auto

lemma fuel_le_length:
  "is_data v \<longrightarrow> fuel_value v \<le> length (stringify_value v)"
  "are_data xs \<longrightarrow> fuel_elements xs \<le> Suc (length (commas (stringify_elements xs)))"
  "members_data ps \<longrightarrow> fuel_members ps \<le> Suc (length (commas (stringify_members ps)))"
proof (induction v and xs and ps rule: stringify_value_stringify_elements_stringify_members.induct)
  case (4 i)
  show ?case using show_int_nonempty [of i] by (simp add: Suc_le_eq)
next
  case (5 s)
  show ?case by (simp add: quote_def)
next
  case (11 x xs)
  then show ?case
    by (auto simp: length_commas_Cons stringify_elements_Nil)
next
  case (13 k v ps)
  then show ?case
    by (auto simp: length_commas_Cons stringify_members_Nil is_data_not_omitted quote_def)
qed auto

lemma JSON_parse_stringify:
  assumes "is_data v"
  shows "JSON_parse (stringify_value v) = Inr v"
proof -
  have "fuel_value v \<le> Suc (length (stringify_value v))"
    using fuel_le_length(1) [of v] assms by simp
  then have "parse_value (Suc (length (stringify_value v))) (stringify_value v @ []) = Some (v, [])"
    using parse_roundtrip(1) [of v] assms ends_value_simps(4) by blast
  then show ?thesis
    by (simp add: JSON_parse_def skip_ws_def)
qed

section \<open>Facts about the private methods\<close>

lemma saveSync_save: "saveSync key obj st fs = save key obj st fs"
  by (simp add: saveSync_def save_def)

lemma loadSync_load: "loadSync key st fs = load key st fs"
  by (simp add: loadSync_def load_def)

lemma safeLoadSync_safeLoad: "safeLoadSync key obj st fs = safeLoad key obj st fs"
  by (simp add: safeLoadSync_def safeLoad_def loadSync_load)

lemma clearSync_clear: "clearSync key st fs = clear key st fs"
  by (simp add: clearSync_def clear_def)

text \<open>
  The path of a key is a located path. For a valid key it lies in the storage directory,
  however that directory is spelled.
\<close>

lemma locate_createFilePath: "locate (createFilePath st key) = createFilePath st key"
  unfolding createFilePath_def using json_name [of key] by (intro locate_path_join) simp_all

lemma createFilePath_keyToFileMap:
  "createFilePath (st\<lparr>keyToFileMap := m\<rparr>) key = createFilePath st key"
  by (simp add: createFilePath_def)

lemma dirname_createFilePath:
  "isValidFilename key \<Longrightarrow> dirname (createFilePath st key) = locate (storageDir st)"
  unfolding createFilePath_def using json_name [of key]
  by (intro dirname_path_join valid_no_slash) simp_all

lemma createFilePath_not_dir:
  "isValidFilename key \<Longrightarrow> createFilePath st key \<noteq> locate (storageDir st)"
  unfolding createFilePath_def using json_name [of key]
  by (intro path_join_not_dir valid_no_slash) simp_all

lemma lookup_registered:
  assumes "\<not> key_in key (keyToFileMap st)"
  shows "lookup (st\<lparr>keyToFileMap := keyToFileMap st @ [(key, p)]\<rparr>) key = Some p"
proof -
  have "key \<notin> fst ` set (keyToFileMap st)"
    using assms by (simp add: key_in_def)
  then have "map_of (keyToFileMap st) key = None"
    by (simp add: map_of_eq_None_iff)
  then show ?thesis
    by (simp add: lookup_def map_add_def)
qed

lemma checkInput_ok:
  assumes "typeof obj = ''object''" "\<not> key_in key (keyToFileMap st)" "isValidFilename key"
  shows "checkInput key obj st =
    (Inr (\<not> ignoreCashola st),
     st\<lparr>keyToFileMap := keyToFileMap st @ [(key, createFilePath st key)]\<rparr>)"
  using assms by (simp add: checkInput_def Let_def)


lemma checkSameType_same: "isArray a = isArray b \<Longrightarrow> checkSameType a b key = Inr ()"
  by (auto simp: checkSameType_def)

lemma checkSameType_differ:
  "isArray a \<noteq> isArray b \<Longrightarrow>
   checkSameType a b key =
     Inl (ShapeMismatchError key (if isArray b then ''array'' else ''object''))"
  by (auto simp: checkSameType_def)

text \<open>What the initial load returns when the file of the key holds well-formed text.\<close>

lemma safeLoad_stored:
  assumes "\<not> key_in key (keyToFileMap st)"
    and "files fs (locate p) = Some body" "JSON_parse body = Inr tmpObj"
  shows "safeLoad key obj (st\<lparr>keyToFileMap := keyToFileMap st @ [(key, p)]\<rparr>) fs =
           (case checkSameType obj tmpObj key of Inl e \<Rightarrow> Inl e | Inr u \<Rightarrow> Inr tmpObj)"
  using assms(2,3) by (simp add: safeLoad_def load_def lookup_registered [OF assms(1)] readFile_def)

text \<open>\<open>save\<close> when the directory of the file exists, and when it has to be created.\<close>

lemma save_written:
  assumes "lookup st key = Some loc" "\<not> omitted obj"
    and "locate loc \<notin> dirs fs" "dirname (locate loc) \<in> dirs fs"
  shows "save key obj st fs =
           (Inr (), fs\<lparr>files := (files fs)(locate loc \<mapsto> stringify_value obj)\<rparr>)"
  using assms by (simp add: save_def writeFile_def JSON_stringify_def)

lemma save_first:
  assumes "lookup st key = Some loc" "\<not> omitted obj" "locate loc \<notin> dirs fs"
    and "dirname (locate loc) = locate (storageDir st)" "locate loc \<noteq> locate (storageDir st)"
    and "files fs (locate (storageDir st)) = None"
  shows "save key obj st fs =
           (Inr (), fs\<lparr>dirs := insert (locate (storageDir st)) (dirs fs),
                       files := (files fs)(locate loc \<mapsto> stringify_value obj)\<rparr>)"
proof (cases "locate (storageDir st) \<in> dirs fs")
  case True
  then show ?thesis
    using assms by (simp add: save_def writeFile_def JSON_stringify_def insert_absorb)
next
  case False
  then show ?thesis
    using assms by (simp add: save_def writeFile_def mkdir_def JSON_stringify_def)
qed

text \<open>\<open>save\<close> writes no file but the one recorded for the key.\<close>

lemma save_files_elsewhere:
  assumes "lookup st key = Some loc" "q \<noteq> locate loc"
  shows "files (snd (save key obj st fs)) q = files fs q"
  using assms
  by (auto simp: save_def writeFile_def mkdir_def Let_def split: sum.splits option.splits if_splits)

lemma configure_keyToFileMap: "keyToFileMap (configure env conf st) = keyToFileMap st"
  by (simp add: configure_def Let_def split: option.splits)

lemma configure_lookup: "lookup (configure env conf st) key = lookup st key"
  by (simp add: lookup_def configure_keyToFileMap)

lemma configure_storageDir:
  "conf_storageDir conf = Some d \<Longrightarrow> d \<noteq> [] \<Longrightarrow> storageDir (configure env conf st) = d"
  by (simp add: configure_def Let_def split: option.splits)

lemma clear_files: "files (snd (clear key st fs)) = (files fs)(createFilePath st key := None)"
  by (auto simp: clear_def rm_def Let_def locate_createFilePath split: option.splits)

section \<open>Facts about the set trap\<close>

lemma proxy_set_applied:
  assumes "Reflect_set obj p v = Inr (True, obj')" "handler_key h = key"
  shows "snd (proxy_set (Proxy obj h) p v st fs) = (Proxy obj' h, snd (save key obj' st fs))"
  using assms
  by (cases h)
     (auto simp: getHandler_set_def getHandlerSync_set_def saveSync_save split: prod.splits sum.splits)

lemma proxy_set_written:
  assumes "Reflect_set obj p v = Inr (True, obj')" "handler_key h = key"
    and "lookup st key = Some loc" "locate loc \<notin> dirs fs" "dirname (locate loc) \<in> dirs fs"
  shows "proxy_set (Proxy obj h) p v st fs =
           (Inr True, Proxy obj' h,
            fs\<lparr>files := (files fs)(locate loc \<mapsto> stringify_value obj')\<rparr>)"
proof -
  have "\<not> omitted obj'"
    using assms(1) by (intro isObject_not_omitted) (rule Reflect_set_isObject)
  then have "save key obj' st fs =
      (Inr (), fs\<lparr>files := (files fs)(locate loc \<mapsto> stringify_value obj')\<rparr>)"
    using assms(3-5) by (intro save_written)
  then show ?thesis
    using assms(1,2)
    by (cases h) (auto simp: getHandler_set_def getHandlerSync_set_def saveSync_save)
qed

lemma proxy_set_not_applied:
  assumes "Reflect_set obj p v = Inr (False, obj')"
  shows "proxy_set (Proxy obj h) p v st fs = (Inr False, Proxy obj h, fs)"
  using assms Reflect_set_rejected [OF assms]
  by (cases h) (auto simp: getHandler_set_def getHandlerSync_set_def)

lemma proxy_set_threw:
  assumes "Reflect_set obj p v = Inl x"
  shows "proxy_set (Proxy obj h) p v st fs = (Inl x, Proxy obj h, fs)"
  using assms
  by (cases h) (auto simp: getHandler_set_def getHandlerSync_set_def)

lemma proxy_set_files_elsewhere:
  assumes "lookup st (handler_key h) = Some loc" "q \<noteq> locate loc"
  shows "files (snd (snd (proxy_set (Proxy obj h) p v st fs))) q = files fs q"
proof (cases "Reflect_set obj p v")
  case (Inl x)
  then show ?thesis by (simp add: proxy_set_threw)
next
  case (Inr r)
  obtain applied obj' where r: "r = (applied, obj')" by (cases r)
  show ?thesis
  proof (cases applied)
    case True
    then have "snd (proxy_set (Proxy obj h) p v st fs) =
        (Proxy obj' h, snd (save (handler_key h) obj' st fs))"
      using Inr r by (intro proxy_set_applied) simp_all
    then show ?thesis
      using save_files_elsewhere [OF assms] by simp
  next
    case False
    then show ?thesis using Inr r by (simp add: proxy_set_not_applied)
  qed
qed

section \<open>Facts about the exported functions\<close>

text \<open>What a bind does once the input check has let it through.\<close>

lemma exported_after_check:
  assumes "typeof obj = ''object''" "\<not> key_in key (keyToFileMap st)" "isValidFilename key"
    and "\<not> ignoreCashola st"
    and "st' = st\<lparr>keyToFileMap := keyToFileMap st @ [(key, createFilePath st key)]\<rparr>"
  shows "exported e key obj st fs =
    (case safeLoad key obj st' fs of
       Inr tmpObj \<Rightarrow> (new_Proxy tmpObj (handler_of e key), st', fs)
     | Inl err \<Rightarrow>
         if code err = Some ''ENOENT'' then
           (case save key obj st' fs of
              (Inl x, fs') \<Rightarrow> (Inl x, st', fs')
            | (Inr u, fs') \<Rightarrow> (new_Proxy obj (handler_of e key), st', fs'))
         else (new_Proxy obj (handler_of e key), st', fs))"
proof -
  have chk: "checkInput key obj st = (Inr True, st')"
    using checkInput_ok [OF assms(1-3)] assms(4,5) by simp
  have arg: "obj \<noteq> Undefined"
    using assms(1) by (rule typeof_object_not_Undefined)
  show ?thesis
  proof (cases e)
    case Remember
    show ?thesis unfolding Remember using chk arg
      by (simp add: remember_def split: sum.split prod.split)
  next
    case RememberSync
    show ?thesis unfolding RememberSync using chk arg
      by (simp add: rememberSync_def safeLoadSync_safeLoad saveSync_save
          split: sum.split prod.split)
  next
    case RememberArray
    show ?thesis unfolding RememberArray using chk arg
      by (simp add: rememberArray_def split: sum.split prod.split)
  next
    case RememberArraySync
    show ?thesis unfolding RememberArraySync using chk arg
      by (simp add: rememberArraySync_def safeLoadSync_safeLoad saveSync_save
          split: sum.split prod.split)
  qed
qed



text \<open>A value whose \<^verbatim>\<open>typeof\<close> is not \<^verbatim>\<open>'object'\<close> is refused before anything else.\<close>

lemma exported_not_object:
  assumes "typeof obj \<noteq> ''object''" "obj \<noteq> Undefined"
  shows "exported e key obj st fs = (Inl (TypeKindError (typeof obj)), st, fs)"
  using assms
  by (cases e)
     (simp_all add: remember_def rememberSync_def rememberArray_def rememberArraySync_def
        checkInput_def)

lemma exported_stored:
  assumes "isObject obj" "isValidFilename key" "\<not> key_in key (keyToFileMap st)"
    and "\<not> ignoreCashola st"
    and "files fs (createFilePath st key) = Some body" "JSON_parse body = Inr tmpObj"
    and "isObject tmpObj" "isArray tmpObj = isArray obj"
  shows "exported e key obj st fs =
           (Inr (Proxy tmpObj (handler_of e key)),
            st\<lparr>keyToFileMap := keyToFileMap st @ [(key, createFilePath st key)]\<rparr>, fs)"
proof -
  let ?st = "st\<lparr>keyToFileMap := keyToFileMap st @ [(key, createFilePath st key)]\<rparr>"
  have "safeLoad key obj ?st fs = Inr tmpObj"
    using safeLoad_stored [OF assms(3), of fs "createFilePath st key" body tmpObj obj] assms(5,6,8)
    by (simp add: checkSameType_same locate_createFilePath)
  then show ?thesis
    using exported_after_check [OF isObject_typeof [OF assms(1)] assms(3) assms(2) assms(4) refl]
      assms(7)
    by (simp add: new_Proxy_def)
qed

text \<open>
  The stored value has the other shape: the error of \<open>checkSameType\<close> has no
  \<^verbatim>\<open>code\<close>, the \<^verbatim>\<open>catch\<close> block does nothing with it, and the bind goes on with the
  starter value.
\<close>

lemma exported_other_shape:
  assumes "isObject obj" "isValidFilename key" "\<not> key_in key (keyToFileMap st)"
    and "\<not> ignoreCashola st"
    and "files fs (createFilePath st key) = Some body" "JSON_parse body = Inr tmpObj"
    and "isArray tmpObj \<noteq> isArray obj"
  shows "exported e key obj st fs =
           (Inr (Proxy obj (handler_of e key)),
            st\<lparr>keyToFileMap := keyToFileMap st @ [(key, createFilePath st key)]\<rparr>, fs)"
proof -
  let ?st = "st\<lparr>keyToFileMap := keyToFileMap st @ [(key, createFilePath st key)]\<rparr>"
  have "safeLoad key obj ?st fs =
          Inl (ShapeMismatchError key (if isArray tmpObj then ''array'' else ''object''))"
    using safeLoad_stored [OF assms(3), of fs "createFilePath st key" body tmpObj obj] assms(5,6,7)
    by (simp add: checkSameType_differ locate_createFilePath)
  then show ?thesis
    using exported_after_check [OF isObject_typeof [OF assms(1)] assms(3) assms(2) assms(4) refl]
      assms(1)
    by (simp add: new_Proxy_def)
qed

text \<open>The first bind of a key: nothing is stored yet, the starter value is saved.\<close>

lemma exported_first_bind:
  assumes "isObject v" "isValidFilename key" "\<not> key_in key (keyToFileMap st)"
    and "\<not> ignoreCashola st"
    and "p = createFilePath st key" "files fs p = None" "p \<notin> dirs fs"
    and "files fs (locate (storageDir st)) = None"
  shows "exported e key v st fs =
           (Inr (Proxy v (handler_of e key)),
            st\<lparr>keyToFileMap := keyToFileMap st @ [(key, p)]\<rparr>,
            fs\<lparr>dirs := insert (locate (storageDir st)) (dirs fs),
               files := (files fs)(p \<mapsto> stringify_value v)\<rparr>)"
proof -
  let ?st = "st\<lparr>keyToFileMap := keyToFileMap st @ [(key, p)]\<rparr>"
  have lk: "lookup ?st key = Some p"
    using assms(3) by (rule lookup_registered)
  have lp: "locate p = p"
    using assms(5) by (simp add: locate_createFilePath)
  have "safeLoad key v ?st fs = Inl (SystemError ''ENOENT'')"
    using lk lp assms(6,7) by (simp add: safeLoad_def load_def readFile_def)
  moreover have "save key v ?st fs =
      (Inr (), fs\<lparr>dirs := insert (locate (storageDir st)) (dirs fs),
                  files := (files fs)(p \<mapsto> stringify_value v)\<rparr>)"
    using save_first [of ?st key p v fs] lk lp isObject_not_omitted [OF assms(1)] assms(5,7,8)
      dirname_createFilePath [OF assms(2), of st] createFilePath_not_dir [OF assms(2), of st]
    by simp
  ultimately show ?thesis
    using exported_after_check [OF isObject_typeof [OF assms(1)] assms(3) assms(2) assms(4), of ?st e fs]
      assms(1,5)
    by (simp add: new_Proxy_def)
qed

section \<open>Binding a key whose file holds the other shape\<close>

text \<open>
  Claim C1. A key whose file holds a value of one shape is bound again, from a new instance,
  with a starter value of the other shape; the bind is claimed to fail with a shape
  mismatch and to return no live binding. Scenario D on the code: \<^verbatim>\<open>rememberArray\<close>
  binds \<^verbatim>\<open>list1\<close> to an empty array and writes \<^verbatim>\<open>[]\<close>; a new instance then binds
  \<^verbatim>\<open>list1\<close> with an object. \<open>checkSameType\<close> raises its error, the \<^verbatim>\<open>catch\<close> block
  of \<^verbatim>\<open>remember\<close> acts only on \<^verbatim>\<open>ENOENT\<close> and drops every other error, and the
  function returns a proxy over the starter object. The file is unchanged by the bind.
\<close>

theorem shape_mismatch_returns_live_binding:
  "rememberArray ''list1'' (Arr [] []) fresh no_storage =
     (Inr (Proxy (Arr [] []) (Handler ''list1'')),
      fresh\<lparr>keyToFileMap := [(''list1'', ''.cashola/list1.json'')]\<rparr>,
      storage_with ''.cashola/list1.json'' ''[]'')
   \<and> remember ''list1'' (Obj [(''a'', Num 1)]) fresh (storage_with ''.cashola/list1.json'' ''[]'') =
     (Inr (Proxy (Obj [(''a'', Num 1)]) (Handler ''list1'')),
      fresh\<lparr>keyToFileMap := [(''list1'', ''.cashola/list1.json'')]\<rparr>,
      storage_with ''.cashola/list1.json'' ''[]'')"
  by (simp add: platform_defs cashola_defs insert_commute)

section \<open>The stored value wins over the starter value\<close>

text \<open>
  Claim C2. When the file of a key already holds a value of the same shape as the starter
  value (both arrays, or both not), each of the four \<^verbatim>\<open>remember\<close> functions returns a
  proxy over the stored value. The starter value does not occur in that result, so its
  fields are discarded whatever they are, and nothing is written. When nothing is stored
  for the key, the starter value is what the proxy is over and what is written to the
  file, in the storage directory, which \<open>save\<close> creates. The bind meant is one that
  reaches the load: the key is a valid file name not yet in the registry and the library is
  not ignored.
\<close>

theorem stored_value_supersedes_initial:
  assumes "isObject obj" "isValidFilename key" "\<not> key_in key (keyToFileMap st)"
    and "\<not> ignoreCashola st"
    and "p = createFilePath st key" "st' = st\<lparr>keyToFileMap := keyToFileMap st @ [(key, p)]\<rparr>"
  shows "(files fs p = Some body \<and> JSON_parse body = Inr tmpObj \<and> isObject tmpObj
            \<and> isArray tmpObj = isArray obj \<longrightarrow>
          exported e key obj st fs = (Inr (Proxy tmpObj (handler_of e key)), st', fs))
       \<and> (files fs p = None \<and> p \<notin> dirs fs \<and> files fs (locate (storageDir st)) = None \<longrightarrow>
          exported e key obj st fs =
            (Inr (Proxy obj (handler_of e key)), st',
             fs\<lparr>dirs := insert (locate (storageDir st)) (dirs fs),
                files := (files fs)(p \<mapsto> stringify_value obj)\<rparr>))"
proof (intro conjI impI)
  assume "files fs p = Some body \<and> JSON_parse body = Inr tmpObj \<and> isObject tmpObj
            \<and> isArray tmpObj = isArray obj"
  then show "exported e key obj st fs = (Inr (Proxy tmpObj (handler_of e key)), st', fs)"
    using exported_stored [OF assms(1-4), of fs body tmpObj e] assms(5,6) by simp
next
  assume "files fs p = None \<and> p \<notin> dirs fs \<and> files fs (locate (storageDir st)) = None"
  then show "exported e key obj st fs =
            (Inr (Proxy obj (handler_of e key)), st',
             fs\<lparr>dirs := insert (locate (storageDir st)) (dirs fs),
                files := (files fs)(p \<mapsto> stringify_value obj)\<rparr>)"
    using exported_first_bind [OF assms(1-5), of fs e] assms(6) by simp
qed

text \<open>
  Scenario B: the file holds a count of 5, the starter value a count of 0. Scenario A:
  nothing is stored, and the starter value is written.
\<close>

theorem stored_value_supersedes_initial_witness:
  "remember ''counter'' (Obj [(''count'', Num 0)]) fresh
     (storage_with ''.cashola/counter.json'' ''{\"count\":5}'') =
   (Inr (Proxy (Obj [(''count'', Num 5)]) (Handler ''counter'')),
    fresh\<lparr>keyToFileMap := [(''counter'', ''.cashola/counter.json'')]\<rparr>,
    storage_with ''.cashola/counter.json'' ''{\"count\":5}'')
   \<and> rememberSync ''counter'' (Obj [(''count'', Num 0)]) fresh no_storage =
   (Inr (Proxy (Obj [(''count'', Num 0)]) (HandlerSync ''counter'')),
    fresh\<lparr>keyToFileMap := [(''counter'', ''.cashola/counter.json'')]\<rparr>,
    storage_with ''.cashola/counter.json'' ''{\"count\":0}'')"
proof -
  let ?st = "fresh\<lparr>keyToFileMap := keyToFileMap fresh @ [(''counter'', ''.cashola/counter.json'')]\<rparr>"
  have h1: "isObject (Obj [(''count'', Num 0)])"
    by simp
  have h2: "isValidFilename ''counter''"
    by (simp add: platform_defs)
  have h3: "\<not> key_in ''counter'' (keyToFileMap fresh)"
    by (simp add: platform_defs cashola_defs)
  have h4: "\<not> ignoreCashola fresh"
    by (simp add: cashola_defs)
  have h5: "''.cashola/counter.json'' = createFilePath fresh ''counter''"
    by (simp add: cashola_defs platform_defs)
  have st: "?st = fresh\<lparr>keyToFileMap := [(''counter'', ''.cashola/counter.json'')]\<rparr>"
    by (simp add: cashola_defs)
  have b: "files (storage_with ''.cashola/counter.json'' ''{\"count\":5}'') ''.cashola/counter.json''
             = Some ''{\"count\":5}''
           \<and> JSON_parse ''{\"count\":5}'' = Inr (Obj [(''count'', Num 5)])
           \<and> isObject (Obj [(''count'', Num 5)])
           \<and> isArray (Obj [(''count'', Num 5)]) = isArray (Obj [(''count'', Num 0)])"
    by (simp add: storage_with_def platform_defs)
  have a: "files no_storage ''.cashola/counter.json'' = None
           \<and> ''.cashola/counter.json'' \<notin> dirs no_storage
           \<and> files no_storage (locate (storageDir fresh)) = None"
    by (simp add: no_storage_def)
  have w: "no_storage\<lparr>dirs := insert (locate (storageDir fresh)) (dirs no_storage),
             files := (files no_storage)(''.cashola/counter.json'' \<mapsto>
                        stringify_value (Obj [(''count'', Num 0)]))\<rparr> =
           storage_with ''.cashola/counter.json'' ''{\"count\":0}''"
    by (simp add: platform_defs cashola_defs insert_commute)
  note B = stored_value_supersedes_initial [OF h1 h2 h3 h4 h5 refl, of
      "storage_with ''.cashola/counter.json'' ''{\"count\":5}''" "''{\"count\":5}''"
      "Obj [(''count'', Num 5)]" Remember]
  note A = stored_value_supersedes_initial [OF h1 h2 h3 h4 h5 refl, of no_storage _ _ RememberSync]
  have r1: "exported Remember ''counter'' (Obj [(''count'', Num 0)]) fresh
              (storage_with ''.cashola/counter.json'' ''{\"count\":5}'') =
            (Inr (Proxy (Obj [(''count'', Num 5)]) (handler_of Remember ''counter'')), ?st,
             storage_with ''.cashola/counter.json'' ''{\"count\":5}'')"
    using mp [OF B [THEN conjunct1] b] .
  have r2: "exported RememberSync ''counter'' (Obj [(''count'', Num 0)]) fresh no_storage =
            (Inr (Proxy (Obj [(''count'', Num 0)]) (handler_of RememberSync ''counter'')), ?st,
             storage_with ''.cashola/counter.json'' ''{\"count\":0}'')"
    using mp [OF A [THEN conjunct2] a] unfolding w .
  show ?thesis
    using r1 r2 unfolding st by simp
qed

section \<open>Binding while the library is ignored\<close>

text \<open>
  Claim C3, as stated, says that a bind under ignore-state creates no registry entry. On
  the code it does: \<open>checkInput\<close> records the key before it looks at the flag, so the
  key is listed afterwards.
\<close>

theorem ignore_state_records_the_key:
  "remember ''counter'' (Obj [(''count'', Num 0)]) ignoring no_storage =
     (Inr (Plain (Obj [(''count'', Num 0)])),
      ignoring\<lparr>keyToFileMap := [(''counter'', ''.cashola/counter.json'')]\<rparr>,
      no_storage)
   \<and> list_keys ignoring = []
   \<and> list_keys (fst (snd (remember ''counter'' (Obj [(''count'', Num 0)]) ignoring no_storage))) =
       [''counter'']"
  by (simp add: platform_defs cashola_defs)

text \<open>
  Claim C3, amended. The keys meant are those that are not yet in the registry and are
  none of the twelve names in \<open>objectPrototypeNames\<close> (\<^verbatim>\<open>constructor\<close>,
  \<^verbatim>\<open>toString\<close>, \<^verbatim>\<open>valueOf\<close> and the others); this is what \<open>key_in\<close> being false
  says. For such a key and a starter value whose \<^verbatim>\<open>typeof\<close> is \<^verbatim>\<open>'object'\<close>, each of
  the four functions called under ignore-state leaves the file system as it is; for a valid
  key it returns the starter value itself, not a proxy, and records the key in the registry;
  for an invalid key it fails with the invalid-key error and records nothing.
\<close>

theorem ignore_state_returns_initial_value:
  assumes "ignoreCashola st" "typeof obj = ''object''" "\<not> key_in key (keyToFileMap st)"
  shows "exported e key obj st fs =
     (if isValidFilename key
      then (Inr (Plain obj),
            st\<lparr>keyToFileMap := keyToFileMap st @ [(key, createFilePath st key)]\<rparr>, fs)
      else (Inl (InvalidKeyError key), st, fs))"
  using assms typeof_object_not_Undefined [OF assms(2)]
  by (cases e)
     (simp_all add: remember_def rememberSync_def rememberArray_def rememberArraySync_def
        checkInput_def)

theorem ignore_state_returns_initial_value_witness:
  "exported RememberArraySync ''list1'' (Arr [Num 1] []) ignoring no_storage =
     (Inr (Plain (Arr [Num 1] [])),
      ignoring\<lparr>keyToFileMap := [(''list1'', ''.cashola/list1.json'')]\<rparr>, no_storage)
   \<and> exported Remember ''a/b'' (Obj []) ignoring no_storage =
     (Inl (InvalidKeyError ''a/b''), ignoring, no_storage)"
proof -
  have h1: "ignoreCashola ignoring"
    by (simp add: cashola_defs)
  have h2: "typeof (Arr [Num 1] []) = ''object''" "typeof (Obj []) = ''object''"
    by simp_all
  have h3: "\<not> key_in ''list1'' (keyToFileMap ignoring)" "\<not> key_in ''a/b'' (keyToFileMap ignoring)"
    by (simp_all add: cashola_defs platform_defs)
  have v: "isValidFilename ''list1''" "\<not> isValidFilename ''a/b''"
    by (simp_all add: platform_defs)
  show ?thesis
    using ignore_state_returns_initial_value [OF h1 h2(1) h3(1), of RememberArraySync no_storage]
      ignore_state_returns_initial_value [OF h1 h2(2) h3(2), of Remember no_storage] v
    by (simp add: cashola_defs platform_defs)
qed

section \<open>Read failures during the initial load\<close>

text \<open>
  Claim C4. Every failure of the initial load other than the absence of the file is claimed
  to reach the caller of the bind. On the code none does: the \<^verbatim>\<open>catch\<close> block of
  \<^verbatim>\<open>remember\<close> saves the starter value on \<^verbatim>\<open>ENOENT\<close> and drops any other error. A
  file holding the malformed text \<^verbatim>\<open>{\<close> makes \<^verbatim>\<open>JSON.parse\<close> fail, and a directory in
  the place of the file makes the read fail with \<^verbatim>\<open>EISDIR\<close>; in both cases the bind
  returns a proxy over the starter value and leaves the file system as it is.
\<close>

theorem decode_failure_returns_live_binding:
  "JSON_parse ''{'' = Inl SyntaxError
   \<and> remember ''counter'' (Obj [(''count'', Num 0)]) fresh
       (storage_with ''.cashola/counter.json'' ''{'') =
     (Inr (Proxy (Obj [(''count'', Num 0)]) (Handler ''counter'')),
      fresh\<lparr>keyToFileMap := [(''counter'', ''.cashola/counter.json'')]\<rparr>,
      storage_with ''.cashola/counter.json'' ''{'')
   \<and> readFile (Some ''.cashola/counter.json'')
        \<lparr>dirs = {''.'', ''.cashola'', ''.cashola/counter.json''}, files = Map.empty\<rparr> =
       Inl (SystemError ''EISDIR'')
   \<and> remember ''counter'' (Obj [(''count'', Num 0)]) fresh
       \<lparr>dirs = {''.'', ''.cashola'', ''.cashola/counter.json''}, files = Map.empty\<rparr> =
     (Inr (Proxy (Obj [(''count'', Num 0)]) (Handler ''counter'')),
      fresh\<lparr>keyToFileMap := [(''counter'', ''.cashola/counter.json'')]\<rparr>,
      \<lparr>dirs = {''.'', ''.cashola'', ''.cashola/counter.json''}, files = Map.empty\<rparr>)"
  by (simp add: platform_defs cashola_defs)

section \<open>The first bind of a key and the bind after it\<close>

text \<open>
  A key that no inherited name shadows, and an object or array that is a data value: the
  first bind saves the value to the file of the key, and a later bind from another
  instance with the same storage directory, whatever its starter value of the same shape,
  returns a proxy over that value.
\<close>

proposition first_bind_persists_and_rebind_returns:
  assumes "isObject v" "is_data v"
    and "isValidFilename key" "\<not> key_in key (keyToFileMap st)" "\<not> ignoreCashola st"
    and "p = createFilePath st key" "files fs p = None" "p \<notin> dirs fs"
    and "files fs (locate (storageDir st)) = None"
    and "\<not> key_in key (keyToFileMap st2)" "\<not> ignoreCashola st2" "storageDir st2 = storageDir st"
    and "isObject w" "isArray w = isArray v"
    and "fs1 = snd (snd (exported e key v st fs))"
  shows "fst (exported e key v st fs) = Inr (Proxy v (handler_of e key))
       \<and> files fs1 = (files fs)(p \<mapsto> stringify_value v)
       \<and> exported e2 key w st2 fs1 =
           (Inr (Proxy v (handler_of e2 key)),
            st2\<lparr>keyToFileMap := keyToFileMap st2 @ [(key, p)]\<rparr>, fs1)"
proof -
  note first = exported_first_bind [OF assms(1,3,4,5,6,7,8,9), of e]
  have fs1: "fs1 = fs\<lparr>dirs := insert (locate (storageDir st)) (dirs fs),
                      files := (files fs)(p \<mapsto> stringify_value v)\<rparr>"
    using assms(15) first by simp
  have p2: "createFilePath st2 key = p"
    using assms(6,12) by (simp add: createFilePath_def)
  have "files fs1 (createFilePath st2 key) = Some (stringify_value v)"
    using fs1 p2 by simp
  then have "exported e2 key w st2 fs1 =
      (Inr (Proxy v (handler_of e2 key)),
       st2\<lparr>keyToFileMap := keyToFileMap st2 @ [(key, createFilePath st2 key)]\<rparr>, fs1)"
    using assms(1,3,10,11,13,14) JSON_parse_stringify [OF assms(2)]
    by (intro exported_stored) simp_all
  then show ?thesis
    using first fs1 p2 by simp
qed

text \<open>
  Claim C5. Every valid key bound with an object or array when nothing is stored is
  claimed to be persisted and to be read back by a later bind. The key
  \<^verbatim>\<open>constructor\<close> is a valid file name, and in a new instance the registry is empty; yet
  \<^verbatim>\<open>'constructor' in this.keyToFileMap\<close> is true, because the registry is an object
  literal and the \<^verbatim>\<open>in\<close> operator sees the names inherited from
  \<^verbatim>\<open>Object.prototype\<close>. The first bind of that key fails as a duplicate and nothing is
  written.
\<close>

theorem inherited_name_rejected_as_duplicate:
  "isValidFilename ''constructor''
   \<and> keyToFileMap fresh = []
   \<and> remember ''constructor'' (Obj [(''count'', Num 0)]) fresh no_storage =
       (Inl (DuplicateKeyError ''constructor''), fresh, no_storage)"
  by (simp add: platform_defs cashola_defs)

section \<open>Binding a key twice\<close>




section \<open>Property writes on a live binding\<close>

text \<open>
  Claim C7. A property write on a proxy returned by a bind goes to the \<^verbatim>\<open>set\<close> trap of
  its handler, for the key \<open>key\<close>. When \<^verbatim>\<open>Reflect.set\<close> applies the write, the target
  of the proxy is the object after the write, a read of the property returns the value
  written, and the file system is the one \<open>save\<close> leaves for that key and the whole
  target; where the file of the key can be written, the trap returns true and the file holds
  the JSON text of the whole target. When \<^verbatim>\<open>Reflect.set\<close> returns false or throws, the
  trap returns false or throws the same error, as the write on the plain object does, and
  target and file system are unchanged. The write started by the trap of
  \<^verbatim>\<open>getHandler\<close> is taken as completed.
\<close>

theorem write_applies_then_persists:
  assumes "handler_key h = key"
  shows "(Reflect_set obj p v = Inr (True, obj') \<longrightarrow>
            snd (proxy_set (Proxy obj h) p v st fs) = (Proxy obj' h, snd (save key obj' st fs))
          \<and> (p \<noteq> ''__proto__'' \<longrightarrow> proxy_get (Proxy obj' h) p = v)
          \<and> (lookup st key = Some loc \<and> locate loc \<notin> dirs fs
               \<and> dirname (locate loc) \<in> dirs fs \<longrightarrow>
               proxy_set (Proxy obj h) p v st fs =
                 (Inr True, Proxy obj' h,
                  fs\<lparr>files := (files fs)(locate loc \<mapsto> stringify_value obj')\<rparr>)))
       \<and> (Reflect_set obj p v = Inr (False, obj') \<longrightarrow>
            proxy_set (Proxy obj h) p v st fs = (Inr False, Proxy obj h, fs)
          \<and> fst (proxy_set (Plain obj) p v st fs) = Inr False)
       \<and> (Reflect_set obj p v = Inl x \<longrightarrow>
            proxy_set (Proxy obj h) p v st fs = (Inl x, Proxy obj h, fs)
          \<and> fst (proxy_set (Plain obj) p v st fs) = Inl x)"
  using assms
  by (auto simp: proxy_set_applied proxy_set_written proxy_set_not_applied proxy_set_threw
        Reflect_set_get)

text \<open>
  Scenario C on the blocking handler, a write on a frozen object, and an array length that
  makes \<^verbatim>\<open>Reflect.set\<close> throw.
\<close>

theorem write_applies_then_persists_witness:
  "proxy_set (Proxy (Obj [(''count'', Num 0)]) (HandlerSync ''counter'')) ''count'' (Num 1)
      (fresh\<lparr>keyToFileMap := [(''counter'', ''.cashola/counter.json'')]\<rparr>)
      (storage_with ''.cashola/counter.json'' ''{\"count\":0}'') =
     (Inr True, Proxy (Obj [(''count'', Num 1)]) (HandlerSync ''counter''),
      storage_with ''.cashola/counter.json'' ''{\"count\":1}'')
   \<and> proxy_get (Proxy (Obj [(''count'', Num 1)]) (HandlerSync ''counter'')) ''count'' = Num 1
   \<and> proxy_set (Proxy (Frozen (Obj [(''count'', Num 0)])) (Handler ''counter'')) ''count'' (Num 1)
      (fresh\<lparr>keyToFileMap := [(''counter'', ''.cashola/counter.json'')]\<rparr>)
      (storage_with ''.cashola/counter.json'' ''{\"count\":0}'') =
     (Inr False, Proxy (Frozen (Obj [(''count'', Num 0)])) (Handler ''counter''),
      storage_with ''.cashola/counter.json'' ''{\"count\":0}'')
   \<and> proxy_set (Proxy (Arr [] []) (Handler ''list1'')) ''length'' (Num (- 1))
      (fresh\<lparr>keyToFileMap := [(''list1'', ''.cashola/list1.json'')]\<rparr>)
      (storage_with ''.cashola/list1.json'' ''[]'') =
     (Inl RangeError, Proxy (Arr [] []) (Handler ''list1''),
      storage_with ''.cashola/list1.json'' ''[]'')"
proof -
  let ?st = "fresh\<lparr>keyToFileMap := [(''counter'', ''.cashola/counter.json'')]\<rparr>"
  let ?fs = "storage_with ''.cashola/counter.json'' ''{\"count\":0}''"
  have k: "handler_key (HandlerSync ''counter'') = ''counter''"
          "handler_key (Handler ''counter'') = ''counter''"
          "handler_key (Handler ''list1'') = ''list1''"
    by simp_all
  have r1: "Reflect_set (Obj [(''count'', Num 0)]) ''count'' (Num 1) = Inr (True, Obj [(''count'', Num 1)])"
    by simp
  have r2: "Reflect_set (Frozen (Obj [(''count'', Num 0)])) ''count'' (Num 1) =
              Inr (False, Frozen (Obj [(''count'', Num 0)]))"
    by simp
  have r3: "Reflect_set (Arr [] []) ''length'' (Num (- 1)) = Inl RangeError"
    by (simp add: array_index_def parse_nat_def digit_val_def)
  have l: "locate ''.cashola/counter.json'' = ''.cashola/counter.json''"
    by (simp add: platform_defs)
  have w: "lookup ?st ''counter'' = Some ''.cashola/counter.json''
           \<and> locate ''.cashola/counter.json'' \<notin> dirs ?fs
           \<and> dirname (locate ''.cashola/counter.json'') \<in> dirs ?fs"
    unfolding l by (simp add: lookup_def storage_with_def dirname_def)
  have n: "''count'' \<noteq> ''__proto__''"
    by simp
  have f: "?fs\<lparr>files := (files ?fs)(locate ''.cashola/counter.json'' \<mapsto>
                    stringify_value (Obj [(''count'', Num 1)]))\<rparr>
            = storage_with ''.cashola/counter.json'' ''{\"count\":1}''"
    unfolding l by (simp add: storage_with_def platform_defs)
  show ?thesis
    using write_applies_then_persists [OF k(1), of "Obj [(''count'', Num 0)]" "''count''" "Num 1"
        "Obj [(''count'', Num 1)]" ?st ?fs "''.cashola/counter.json''"] r1 w n f
      write_applies_then_persists [OF k(2), of "Frozen (Obj [(''count'', Num 0)])" "''count''" "Num 1"
        "Frozen (Obj [(''count'', Num 0)])" ?st ?fs] r2
      write_applies_then_persists [OF k(3), of "Arr [] []" "''length''" "Num (- 1)" _
        "fresh\<lparr>keyToFileMap := [(''list1'', ''.cashola/list1.json'')]\<rparr>"
        "storage_with ''.cashola/list1.json'' ''[]''" _ RangeError] r3
    by simp
qed

section \<open>Starter values that are not objects\<close>

text \<open>
  Claim C8. A starter value that is no object or array is claimed to be refused with the
  type error of \<open>checkInput\<close> before anything is recorded or written, and the claim
  names \<^verbatim>\<open>null\<close> among such values. \<open>checkInput\<close> tests \<^verbatim>\<open>typeof obj === 'object'\<close>,
  which is true of \<^verbatim>\<open>null\<close>: the key is recorded, nothing is stored yet, so the storage
  directory is created and \<^verbatim>\<open>null\<close> is written to the file, and only then does the
  \<^verbatim>\<open>Proxy\<close> constructor throw a \<^verbatim>\<open>TypeError\<close>. For a string, a number, a boolean or
  a function the claim holds (\<open>exported_not_object\<close>).
\<close>

theorem null_passes_the_type_check:
  "typeof Null = ''object''
   \<and> remember ''counter'' Null fresh no_storage =
     (Inl TypeError,
      fresh\<lparr>keyToFileMap := [(''counter'', ''.cashola/counter.json'')]\<rparr>,
      storage_with ''.cashola/counter.json'' ''null'')"
  by (simp add: platform_defs cashola_defs insert_commute)

section \<open>Clearing one key\<close>

text \<open>
  Claim C9, as stated, makes \<^verbatim>\<open>clear\<close> and \<^verbatim>\<open>clearSync\<close> fail for a key that was
  never bound in the current registry. Neither function looks at the registry: in a new
  instance, with the file of the key present, both remove it and succeed.
\<close>

theorem clear_of_unbound_key_succeeds:
  "lookup fresh ''counter'' = None
   \<and> clearSync ''counter'' fresh (storage_with ''.cashola/counter.json'' ''{}'') =
       (Inr (), \<lparr>dirs = {''.'', ''.cashola''}, files = Map.empty\<rparr>)
   \<and> clear ''counter'' fresh (storage_with ''.cashola/counter.json'' ''{}'') =
       (Inr (), \<lparr>dirs = {''.'', ''.cashola''}, files = Map.empty\<rparr>)"
  by (simp add: platform_defs cashola_defs)

text \<open>
  Claim C9, amended. \<^verbatim>\<open>clear\<close> and \<^verbatim>\<open>clearSync\<close> act on the one path
  \<open>p\<close> made of the current storage directory and the key, whatever the registry holds:
  when a file is there they remove that file and nothing else, and when nothing is there
  they fail with \<^verbatim>\<open>ENOENT\<close> and change nothing.
\<close>

theorem clear_removes_file_of_current_directory:
  assumes "p = createFilePath st key"
  shows "(files fs p \<noteq> None \<longrightarrow>
            clearSync key st fs = (Inr (), fs\<lparr>files := (files fs)(p := None)\<rparr>)
          \<and> clear key st fs = (Inr (), fs\<lparr>files := (files fs)(p := None)\<rparr>))
       \<and> (files fs p = None \<and> p \<notin> dirs fs \<longrightarrow>
            clearSync key st fs = (Inl (SystemError ''ENOENT''), fs)
          \<and> clear key st fs = (Inl (SystemError ''ENOENT''), fs))
       \<and> clearSync key (st\<lparr>keyToFileMap := m\<rparr>) fs = clearSync key st fs
       \<and> clear key (st\<lparr>keyToFileMap := m\<rparr>) fs = clear key st fs"
  using assms
  by (auto simp: clearSync_def clear_def rm_def Let_def locate_createFilePath
        createFilePath_keyToFileMap)

theorem clear_removes_file_of_current_directory_witness:
  "clearSync ''counter'' fresh
     \<lparr>dirs = {''.cashola''},
        files = [''.cashola/counter.json'' \<mapsto> ''{}'', ''.cashola/list1.json'' \<mapsto> ''[]'']\<rparr> =
     (Inr (), \<lparr>dirs = {''.cashola''}, files = [''.cashola/list1.json'' \<mapsto> ''[]'']\<rparr>)
   \<and> clear ''counter'' fresh no_storage = (Inl (SystemError ''ENOENT''), no_storage)"
proof -
  let ?fs = "\<lparr>dirs = {''.cashola''},
      files = [''.cashola/counter.json'' \<mapsto> ''{}'', ''.cashola/list1.json'' \<mapsto> ''[]'']\<rparr>"
  have p: "''.cashola/counter.json'' = createFilePath fresh ''counter''"
    by (simp add: cashola_defs platform_defs)
  have a: "files ?fs ''.cashola/counter.json'' \<noteq> None"
    by simp
  have b: "files no_storage ''.cashola/counter.json'' = None
           \<and> ''.cashola/counter.json'' \<notin> dirs no_storage"
    by (simp add: no_storage_def)
  have e: "[''.cashola/counter.json'' \<mapsto> ''{}'', ''.cashola/list1.json'' \<mapsto> ''[]'']
             (''.cashola/counter.json'' := None) = [''.cashola/list1.json'' \<mapsto> ''[]'']"
    by (rule ext) simp
  show ?thesis
    using clear_removes_file_of_current_directory [OF p, of ?fs] a
      clear_removes_file_of_current_directory [OF p, of no_storage] b e
    by simp
qed

section \<open>Clearing after the storage directory was changed\<close>

text \<open>
  Claim C10, as stated, says that once the storage directory was reconfigured, a clear of a
  bound key never touches the file recorded for the key. \<^verbatim>\<open>path.join\<close> normalises the
  directory it is given. The key \<^verbatim>\<open>counter\<close> is bound under the default directory
  \<^verbatim>\<open>.cashola\<close>, and \<^verbatim>\<open>configure\<close> is then given \<^verbatim>\<open>./.cashola\<close>: the storage directory
  is another string, the path \<open>createFilePath\<close> computes is the recorded one, and
  \<^verbatim>\<open>clear\<close> and \<^verbatim>\<open>clearSync\<close> remove the recorded file.
\<close>

theorem clear_after_respelling_removes_recorded_file:
  "rememberSync ''counter'' (Obj [(''count'', Num 0)]) fresh no_storage =
     (Inr (Proxy (Obj [(''count'', Num 0)]) (HandlerSync ''counter'')),
      fresh\<lparr>keyToFileMap := [(''counter'', ''.cashola/counter.json'')]\<rparr>,
      storage_with ''.cashola/counter.json'' ''{\"count\":0}'')
   \<and> storageDir fresh = ''.cashola''
   \<and> storageDir respelled = ''./.cashola''
   \<and> lookup respelled ''counter'' = Some ''.cashola/counter.json''
   \<and> createFilePath respelled ''counter'' = ''.cashola/counter.json''
   \<and> clearSync ''counter'' respelled (storage_with ''.cashola/counter.json'' ''{\"count\":0}'') =
       (Inr (), \<lparr>dirs = {''.'', ''.cashola''}, files = Map.empty\<rparr>)
   \<and> clear ''counter'' respelled (storage_with ''.cashola/counter.json'' ''{\"count\":0}'') =
       (Inr (), \<lparr>dirs = {''.'', ''.cashola''}, files = Map.empty\<rparr>)"
  by (simp add: platform_defs cashola_defs respelled_def insert_commute)

text \<open>
  Claim C10, amended. A valid key was bound while the storage directory was \<open>d0\<close>, so the
  registry records the path \<open>loc\<close> under \<open>d0\<close>; \<^verbatim>\<open>configure\<close> then sets the directory
  \<open>d\<close>. From then on \<^verbatim>\<open>clear\<close> and \<^verbatim>\<open>clearSync\<close> compute the path of the key under
  \<open>d\<close>, and that path is the only one whose file they can remove. When \<open>d\<close> and
  \<open>d0\<close> are different directories inside the working directory, that path is not the
  recorded one and the recorded file is as before. When \<open>d\<close> is the directory
  \<open>d0\<close>, written the same or another way, that path is the recorded one and no file is
  left there. In both cases the registry still records \<open>loc\<close>, and a property write on
  the live binding changes no file but the one at \<open>loc\<close>, which, where it can be
  written, then holds the JSON text of the target.
\<close>

theorem clear_uses_configured_directory:
  assumes "isValidFilename key" "lookup st key = Some loc" "loc = path_join d0 (key @ ''.json'')"
    and "conf_storageDir conf = Some d" "d \<noteq> []"
    and "st' = configure env conf st" "handler_key h = key"
  shows "createFilePath st' key = path_join d (key @ ''.json'')
       \<and> lookup st' key = Some loc
       \<and> files (snd (clear key st' fs)) = (files fs)(path_join d (key @ ''.json'') := None)
       \<and> files (snd (clearSync key st' fs)) = (files fs)(path_join d (key @ ''.json'') := None)
       \<and> (inside d \<and> inside d0 \<and> locate d \<noteq> locate d0 \<longrightarrow>
            path_join d (key @ ''.json'') \<noteq> loc
          \<and> files (snd (clear key st' fs)) loc = files fs loc
          \<and> files (snd (clearSync key st' fs)) loc = files fs loc)
       \<and> (locate d = locate d0 \<longrightarrow>
            path_join d (key @ ''.json'') = loc
          \<and> files (snd (clear key st' fs)) loc = None
          \<and> files (snd (clearSync key st' fs)) loc = None)
       \<and> (\<forall>q. q \<noteq> loc \<longrightarrow> files (snd (snd (proxy_set (Proxy obj h) p v st' fs))) q = files fs q)
       \<and> (Reflect_set obj p v = Inr (True, obj') \<and> loc \<notin> dirs fs \<and> dirname loc \<in> dirs fs \<longrightarrow>
            files (snd (snd (proxy_set (Proxy obj h) p v st' fs))) loc = Some (stringify_value obj'))"
proof -
  let ?target = "path_join d (key @ ''.json'')"
  have name: "CHR ''/'' \<notin> set (key @ ''.json'')" "key @ ''.json'' \<noteq> []"
      "key @ ''.json'' \<noteq> ''.''" "key @ ''.json'' \<noteq> ''..''"
    using valid_no_slash [OF assms(1)] json_name [of key] by simp_all
  have same: "?target = loc \<longleftrightarrow> locate d = locate d0"
    unfolding assms(3) using name by (rule path_join_same_iff)
  have located: "locate loc = loc"
    unfolding assms(3) using json_name [of key] by (intro locate_path_join) simp_all
  have path: "createFilePath st' key = ?target"
    using assms(4,5,6) by (simp add: createFilePath_def configure_storageDir)
  have recorded: "lookup st' key = Some loc"
    using assms(2,6) by (simp add: configure_lookup)
  have cleared: "files (snd (clear key st' fs)) = (files fs)(?target := None)"
    using path by (simp add: clear_files)
  have untouched: "inside d \<and> inside d0 \<and> locate d \<noteq> locate d0 \<longrightarrow>
            ?target \<noteq> loc
          \<and> files (snd (clear key st' fs)) loc = files fs loc
          \<and> files (snd (clearSync key st' fs)) loc = files fs loc"
  proof
    assume "inside d \<and> inside d0 \<and> locate d \<noteq> locate d0"
    then have "?target \<noteq> loc"
      using same by simp
    then show "?target \<noteq> loc
          \<and> files (snd (clear key st' fs)) loc = files fs loc
          \<and> files (snd (clearSync key st' fs)) loc = files fs loc"
      using cleared by (simp add: clearSync_clear)
  qed
  have removed: "locate d = locate d0 \<longrightarrow>
            ?target = loc
          \<and> files (snd (clear key st' fs)) loc = None
          \<and> files (snd (clearSync key st' fs)) loc = None"
  proof
    assume "locate d = locate d0"
    then have "?target = loc"
      using same by simp
    then show "?target = loc
          \<and> files (snd (clear key st' fs)) loc = None
          \<and> files (snd (clearSync key st' fs)) loc = None"
      using cleared by (simp add: clearSync_clear)
  qed
  have elsewhere: "\<forall>q. q \<noteq> loc \<longrightarrow> files (snd (snd (proxy_set (Proxy obj h) p v st' fs))) q = files fs q"
    using proxy_set_files_elsewhere [of st' h loc] recorded assms(7) located by simp
  have written: "Reflect_set obj p v = Inr (True, obj') \<and> loc \<notin> dirs fs \<and> dirname loc \<in> dirs fs \<longrightarrow>
            files (snd (snd (proxy_set (Proxy obj h) p v st' fs))) loc = Some (stringify_value obj')"
    using proxy_set_written [of obj p v obj' h key st' loc fs] recorded assms(7) located by simp
  have both: "files (snd (clearSync key st' fs)) = (files fs)(?target := None)"
    using cleared by (simp add: clearSync_clear)
  show ?thesis
    using path recorded cleared both untouched removed elsewhere written
    by (simp only: simp_thms)
qed

text \<open>
  The key \<^verbatim>\<open>counter\<close>, bound under \<^verbatim>\<open>.cashola\<close>. With the directory set to
  \<^verbatim>\<open>elsewhere\<close>, a clear removes the file there and leaves the recorded one, and a write
  on the binding goes to the recorded one. With the directory set to \<^verbatim>\<open>./.cashola\<close>, a
  clear removes the recorded file.
\<close>

theorem clear_uses_configured_directory_witness:
  "createFilePath moved ''counter'' = ''elsewhere/counter.json''
   \<and> lookup moved ''counter'' = Some ''.cashola/counter.json''
   \<and> files (snd (clearSync ''counter'' moved two_dirs)) ''elsewhere/counter.json'' = None
   \<and> files (snd (clearSync ''counter'' moved two_dirs)) ''.cashola/counter.json'' = Some ''{\"count\":0}''
   \<and> files (snd (snd (proxy_set (Proxy (Obj [(''count'', Num 0)]) (HandlerSync ''counter''))
         ''count'' (Num 1) moved two_dirs))) ''.cashola/counter.json'' = Some ''{\"count\":1}''
   \<and> files (snd (snd (proxy_set (Proxy (Obj [(''count'', Num 0)]) (HandlerSync ''counter''))
         ''count'' (Num 1) moved two_dirs))) ''elsewhere/counter.json'' = Some ''[]''
   \<and> createFilePath respelled ''counter'' = ''.cashola/counter.json''
   \<and> files (snd (clearSync ''counter'' respelled two_dirs)) ''.cashola/counter.json'' = None"
proof -
  have a0: "isValidFilename ''counter''"
    by (simp add: platform_defs)
  have a1: "lookup (fresh\<lparr>keyToFileMap := [(''counter'', ''.cashola/counter.json'')]\<rparr>) ''counter''
              = Some ''.cashola/counter.json''"
    by (simp add: lookup_def)
  have a2: "''.cashola/counter.json'' = path_join ''.cashola'' (''counter'' @ ''.json'')"
    by (simp add: platform_defs)
  have a3: "conf_storageDir \<lparr>conf_storageDir = Some ''elsewhere'', conf_ignoreCasholaEnvVar = None,
              conf_ignoreCashola = None\<rparr> = Some ''elsewhere''"
    by simp
  have b3: "conf_storageDir \<lparr>conf_storageDir = Some ''./.cashola'', conf_ignoreCasholaEnvVar = None,
              conf_ignoreCashola = None\<rparr> = Some ''./.cashola''"
    by simp
  have a4: "''elsewhere'' \<noteq> []" "''./.cashola'' \<noteq> []"
    by simp_all
  have a5: "handler_key (HandlerSync ''counter'') = ''counter''"
    by simp
  have other: "inside ''elsewhere'' \<and> inside ''.cashola''
               \<and> locate ''elsewhere'' \<noteq> locate ''.cashola''"
    by (simp add: inside_def segments_of_def platform_defs)
  have alike: "locate ''./.cashola'' = locate ''.cashola''"
    by (simp add: platform_defs)
  have e1: "path_join ''elsewhere'' (''counter'' @ ''.json'') = ''elsewhere/counter.json''"
    by (simp add: platform_defs)
  have e2: "path_join ''./.cashola'' (''counter'' @ ''.json'') = ''.cashola/counter.json''"
    by (simp add: platform_defs)
  have r: "Reflect_set (Obj [(''count'', Num 0)]) ''count'' (Num 1) = Inr (True, Obj [(''count'', Num 1)])
           \<and> ''.cashola/counter.json'' \<notin> dirs two_dirs
           \<and> dirname ''.cashola/counter.json'' \<in> dirs two_dirs"
    by (simp add: two_dirs_def dirname_def)
  have s: "stringify_value (Obj [(''count'', Num 1)]) = ''{\"count\":1}''"
    by (simp add: platform_defs)
  have q: "''elsewhere/counter.json'' \<noteq> ''.cashola/counter.json''"
    by simp
  have f: "files two_dirs ''elsewhere/counter.json'' = Some ''[]''"
           "files two_dirs ''.cashola/counter.json'' = Some ''{\"count\":0}''"
    by (simp_all add: two_dirs_def)
  note T = clear_uses_configured_directory [OF a0 a1 a2 a3 a4(1) moved_def a5,
        of two_dirs "Obj [(''count'', Num 0)]" "''count''" "Num 1" "Obj [(''count'', Num 1)]"]
  note U = clear_uses_configured_directory [OF a0 a1 a2 b3 a4(2) respelled_def a5,
        of two_dirs "Obj [(''count'', Num 0)]" "''count''" "Num 1" "Obj [(''count'', Num 1)]"]
  note T5 = T [THEN conjunct2, THEN conjunct2, THEN conjunct2, THEN conjunct2]
  note T7 = T5 [THEN conjunct2, THEN conjunct2]
  note U6 = U [THEN conjunct2, THEN conjunct2, THEN conjunct2, THEN conjunct2, THEN conjunct2]
  have c1: "createFilePath moved ''counter'' = ''elsewhere/counter.json''"
    using T [THEN conjunct1] unfolding e1 .
  have c2: "lookup moved ''counter'' = Some ''.cashola/counter.json''"
    using T [THEN conjunct2, THEN conjunct1] .
  have c3: "files (snd (clearSync ''counter'' moved two_dirs)) ''elsewhere/counter.json'' = None"
    using T [THEN conjunct2, THEN conjunct2, THEN conjunct2, THEN conjunct1] unfolding e1
    by simp
  have c4: "files (snd (clearSync ''counter'' moved two_dirs)) ''.cashola/counter.json'' =
              Some ''{\"count\":0}''"
    using mp [OF T5 [THEN conjunct1] other, THEN conjunct2, THEN conjunct2] f(2)
    by (simp only:)
  have c5: "files (snd (snd (proxy_set (Proxy (Obj [(''count'', Num 0)]) (HandlerSync ''counter''))
         ''count'' (Num 1) moved two_dirs))) ''.cashola/counter.json'' = Some ''{\"count\":1}''"
    using mp [OF T7 [THEN conjunct2] r] unfolding s .
  have c6: "files (snd (snd (proxy_set (Proxy (Obj [(''count'', Num 0)]) (HandlerSync ''counter''))
         ''count'' (Num 1) moved two_dirs))) ''elsewhere/counter.json'' = Some ''[]''"
    using mp [OF spec [OF T7 [THEN conjunct1]] q] f(1) by (simp only:)
  have c7: "createFilePath respelled ''counter'' = ''.cashola/counter.json''"
    using U [THEN conjunct1] unfolding e2 .
  have c8: "files (snd (clearSync ''counter'' respelled two_dirs)) ''.cashola/counter.json'' = None"
    using mp [OF U6 [THEN conjunct1] alike, THEN conjunct2, THEN conjunct2] .
  show ?thesis
    using c1 c2 c3 c4 c5 c6 c7 c8 by (simp only: simp_thms)
qed

end
